theory Spec2Isabelle
  imports Complex_Main
begin

section \<open>Numeric values and one-dimensional arrays\<close>

text \<open>
  The programs compute with numpy arrays of 64-bit floats. A float is modelled as a real
  number or one of the three special values of the arithmetic: a finite value is an exact
  real (no rounding, no overflow, no underflow), and zero carries no sign and divides as
  \<open>+0.0\<close> does. numpy does not raise on a division by zero or on the square root of a
  negative number: it warns and returns \<open>inf\<close>, \<open>-inf\<close> or \<open>nan\<close>. Where numpy
  divides by \<open>-0.0\<close> the infinity has the opposite sign; what is proved below of a
  division by zero in general is that its result is not finite, which does not depend
  on the sign of the zero.
\<close>

datatype npfloat = Fin real | PInf | NInf | NaN

text \<open>
  What a call can end with other than a value. \<open>ValueError\<close>, \<open>IndexError\<close>,
  \<open>KeyError\<close>, \<open>TypeError\<close> and \<open>AssertionError\<close> are Python exceptions that
  leave the function.
  The next four are the early returns of the graphical front ends, each after an
  error dialog: \<open>NoMassSelected\<close> ("No mass selected for the calibration."),
  \<open>InsufficientDataError\<close> ("At least three points are needed for the calibration."),
  \<open>ChannelNotFoundError\<close> ("Mass ... not in available masses ...") and
  \<open>FileReadError\<close> ("An error occurred while reading the file"). No statement of the
  programs produces \<open>DegenerateInputError\<close> or \<open>CalibrationDegenerateError\<close>; they
  are here so that statements about them can be written down.
\<close>

datatype error =
    ValueError | IndexError | KeyError | TypeError | AssertionError
  | NoMassSelected | InsufficientDataError | ChannelNotFoundError | FileReadError
  | DegenerateInputError | CalibrationDegenerateError

fun is_finite :: "npfloat \<Rightarrow> bool" where
  "is_finite (Fin r) = True"
| "is_finite v = False"

fun np_neg :: "npfloat \<Rightarrow> npfloat" where
  "np_neg (Fin a) = Fin (- a)"
| "np_neg PInf = NInf"
| "np_neg NInf = PInf"
| "np_neg NaN = NaN"

fun np_add :: "npfloat \<Rightarrow> npfloat \<Rightarrow> npfloat" where
  "np_add (Fin a) (Fin b) = Fin (a + b)"
| "np_add NaN v = NaN"
| "np_add v NaN = NaN"
| "np_add PInf NInf = NaN"
| "np_add NInf PInf = NaN"
| "np_add PInf v = PInf"
| "np_add NInf v = NInf"
| "np_add v PInf = PInf"
| "np_add v NInf = NInf"

definition np_sub :: "npfloat \<Rightarrow> npfloat \<Rightarrow> npfloat" where
  "np_sub a b = np_add a (np_neg b)"

fun np_mul :: "npfloat \<Rightarrow> npfloat \<Rightarrow> npfloat" where
  "np_mul (Fin a) (Fin b) = Fin (a * b)"
| "np_mul NaN v = NaN"
| "np_mul v NaN = NaN"
| "np_mul PInf PInf = PInf"
| "np_mul PInf NInf = NInf"
| "np_mul NInf PInf = NInf"
| "np_mul NInf NInf = PInf"
| "np_mul PInf (Fin b) = (if b = 0 then NaN else if 0 < b then PInf else NInf)"
| "np_mul NInf (Fin b) = (if b = 0 then NaN else if 0 < b then NInf else PInf)"
| "np_mul (Fin a) PInf = (if a = 0 then NaN else if 0 < a then PInf else NInf)"
| "np_mul (Fin a) NInf = (if a = 0 then NaN else if 0 < a then NInf else PInf)"

fun np_div :: "npfloat \<Rightarrow> npfloat \<Rightarrow> npfloat" where
  "np_div (Fin a) (Fin b) =
     (if b \<noteq> 0 then Fin (a / b)
      else if a = 0 then NaN else if 0 < a then PInf else NInf)"
| "np_div NaN v = NaN"
| "np_div v NaN = NaN"
| "np_div (Fin a) PInf = Fin 0"
| "np_div (Fin a) NInf = Fin 0"
| "np_div PInf (Fin b) = (if 0 \<le> b then PInf else NInf)"
| "np_div NInf (Fin b) = (if 0 \<le> b then NInf else PInf)"
| "np_div PInf v = NaN"
| "np_div NInf v = NaN"

fun np_sqrt :: "npfloat \<Rightarrow> npfloat" where
  "np_sqrt (Fin a) = (if a < 0 then NaN else Fin (sqrt a))"
| "np_sqrt PInf = PInf"
| "np_sqrt NInf = NaN"
| "np_sqrt NaN = NaN"

text \<open>\<open>v ** 2\<close> on a float.\<close>

definition np_square :: "npfloat \<Rightarrow> npfloat" where
  "np_square v = np_mul v v"

text \<open>\<open>np.sum\<close> of a one-dimensional array; the sum of no element is \<open>0.0\<close>.\<close>

definition np_sum :: "npfloat list \<Rightarrow> npfloat" where
  "np_sum xs = foldl np_add (Fin 0) xs"

text \<open>
  An operator between two one-dimensional arrays works element by element when the
  lengths agree, stretches an array of length one to the other's length, and raises
  \<open>ValueError\<close> (operands could not be broadcast together) otherwise.
\<close>

definition np_bin ::
  "(npfloat \<Rightarrow> npfloat \<Rightarrow> npfloat) \<Rightarrow> npfloat list \<Rightarrow> npfloat list \<Rightarrow> error + npfloat list" where
  "np_bin f xs ys =
     (if length xs = length ys then Inr (map2 f xs ys)
      else if length xs = 1 then Inr (map (f (hd xs)) ys)
      else if length ys = 1 then Inr (map (\<lambda>x. f x (hd ys)) xs)
      else Inl ValueError)"

text \<open>
  \<open>np.mean\<close> is the sum over the number of elements, and \<open>np.std\<close> (population
  standard deviation, \<open>ddof = 0\<close>) the square root of the mean of the squared
  deviations from the mean.
\<close>

definition np_mean :: "npfloat list \<Rightarrow> npfloat" where
  "np_mean xs = np_div (np_sum xs) (Fin (real (length xs)))"

definition np_std :: "npfloat list \<Rightarrow> npfloat" where
  "np_std xs =
     np_sqrt (np_mean (map (\<lambda>x. np_square (np_sub x (np_mean xs))) xs))"

section \<open>Weighted statistics and the regression (data\_calibrator.py)\<close>

text \<open>\<open>m(x, w)\<close>: \<open>np.sum(x * w) / np.sum(w)\<close>.\<close>

definition m :: "npfloat list \<Rightarrow> npfloat list \<Rightarrow> error + npfloat" where
  "m x w =
     (case np_bin np_mul x w of
        Inl e \<Rightarrow> Inl e
      | Inr xw \<Rightarrow> Inr (np_div (np_sum xw) (np_sum w)))"

text \<open>\<open>cov(x, y, w)\<close>: \<open>np.sum(w * (x - m(x, w)) * (y - m(y, w))) / np.sum(w)\<close>.\<close>

definition cov :: "npfloat list \<Rightarrow> npfloat list \<Rightarrow> npfloat list \<Rightarrow> error + npfloat" where
  "cov x y w =
     (case m x w of
        Inl e \<Rightarrow> Inl e
      | Inr mx \<Rightarrow>
     (case np_bin np_mul w (map (\<lambda>a. np_sub a mx) x) of
        Inl e \<Rightarrow> Inl e
      | Inr wx \<Rightarrow>
     (case m y w of
        Inl e \<Rightarrow> Inl e
      | Inr my \<Rightarrow>
     (case np_bin np_mul wx (map (\<lambda>a. np_sub a my) y) of
        Inl e \<Rightarrow> Inl e
      | Inr wxy \<Rightarrow> Inr (np_div (np_sum wxy) (np_sum w))))))"

text \<open>\<open>corr(x, y, w)\<close>: \<open>cov(x, y, w) / np.sqrt(cov(x, x, w) * cov(y, y, w))\<close>.\<close>

definition corr :: "npfloat list \<Rightarrow> npfloat list \<Rightarrow> npfloat list \<Rightarrow> error + npfloat" where
  "corr x y w =
     (case cov x y w of
        Inl e \<Rightarrow> Inl e
      | Inr cxy \<Rightarrow>
     (case cov x x w of
        Inl e \<Rightarrow> Inl e
      | Inr cxx \<Rightarrow>
     (case cov y y w of
        Inl e \<Rightarrow> Inl e
      | Inr cyy \<Rightarrow> Inr (np_div cxy (np_sqrt (np_mul cxx cyy))))))"

text \<open>
  \<open>wls(x, y, w)\<close>: the correlation, then
  \<open>slope = c * np.std(y) / np.std(x)\<close>, \<open>intercept = m(y, w) - m(x, w) * slope\<close>,
  and the triple \<open>(slope, intercept, c ** 2)\<close>.
\<close>

definition wls ::
  "npfloat list \<Rightarrow> npfloat list \<Rightarrow> npfloat list \<Rightarrow> error + (npfloat \<times> npfloat \<times> npfloat)" where
  "wls x y w =
     (case corr x y w of
        Inl e \<Rightarrow> Inl e
      | Inr c \<Rightarrow>
     (let slope = np_div (np_mul c (np_std y)) (np_std x) in
     (case m y w of
        Inl e \<Rightarrow> Inl e
      | Inr my \<Rightarrow>
     (case m x w of
        Inl e \<Rightarrow> Inl e
      | Inr mx \<Rightarrow> Inr (slope, np_sub my (np_mul mx slope), np_square c)))))"

text \<open>
  The same four quantities over the reals, as the contract of the calibration engine
  words them: weighted mean, weighted covariance, weighted correlation and the
  population standard deviation.
\<close>

definition wmean :: "real list \<Rightarrow> real list \<Rightarrow> real" where
  "wmean x w = sum_list (map2 (*) x w) / sum_list w"

definition wcov :: "real list \<Rightarrow> real list \<Rightarrow> real list \<Rightarrow> real" where
  "wcov x y w =
     sum_list (map2 (*) (map2 (*) w (map (\<lambda>a. a - wmean x w) x)) (map (\<lambda>a. a - wmean y w) y))
       / sum_list w"

definition wcorr :: "real list \<Rightarrow> real list \<Rightarrow> real list \<Rightarrow> real" where
  "wcorr x y w = wcov x y w / sqrt (wcov x x w * wcov y y w)"

definition pmean :: "real list \<Rightarrow> real" where
  "pmean x = sum_list x / real (length x)"

definition pstd :: "real list \<Rightarrow> real" where
  "pstd x = sqrt (sum_list (map (\<lambda>a. (a - pmean x)\<^sup>2) x) / real (length x))"

section \<open>Strings, header lines and data files\<close>

definition TAB :: char where
  "TAB = CHR 0x09"

definition NL :: char where
  "NL = CHR 0x0A"

text \<open>The ASCII characters that \<open>str.split()\<close> and \<open>str.strip()\<close> treat as white space.\<close>

definition is_space :: "char \<Rightarrow> bool" where
  "is_space c \<longleftrightarrow> c \<in> set [CHR 0x09, CHR 0x0A, CHR 0x0B, CHR 0x0C, CHR 0x0D,
                            CHR 0x1C, CHR 0x1D, CHR 0x1E, CHR 0x1F, CHR 0x20]"

definition is_digit :: "char \<Rightarrow> bool" where
  "is_digit c \<longleftrightarrow> c \<in> set ''0123456789''"

definition digit_val :: "char \<Rightarrow> nat" where
  "digit_val c = of_char c - 48"

definition strip :: "string \<Rightarrow> string" where
  "strip s = rev (dropWhile is_space (rev (dropWhile is_space s)))"

text \<open>\<open>s.split(sep)\<close> for a separator of one character: always at least one field.\<close>

fun split_on :: "char \<Rightarrow> string \<Rightarrow> string list" where
  "split_on sep [] = [[]]"
| "split_on sep (c # cs) =
     (if c = sep then [] # split_on sep cs
      else (case split_on sep cs of [] \<Rightarrow> [[c]] | t # ts \<Rightarrow> (c # t) # ts))"

text \<open>\<open>s.split()\<close>: the maximal runs of characters that are not white space.\<close>

fun split_ws_from :: "string \<Rightarrow> string \<Rightarrow> string list" where
  "split_ws_from cur [] = (if cur = [] then [] else [cur])"
| "split_ws_from cur (c # cs) =
     (if is_space c then (if cur = [] then [] else [cur]) @ split_ws_from [] cs
      else split_ws_from (cur @ [c]) cs)"

definition split_ws :: "string \<Rightarrow> string list" where
  "split_ws s = split_ws_from [] s"

text \<open>
  \<open>int(s)\<close> on a string of ASCII characters: the white space that \<open>int\<close> drops
  around the literal is the tab, the line feed, the vertical tab, the form feed, the
  carriage return and the space (not the separators \<open>0x1C\<close> to \<open>0x1F\<close>, which
  \<open>str.split()\<close> does take); a sign may lead, and single underscores may stand between
  decimal digits. Anything else raises \<open>ValueError\<close>.
\<close>

definition is_c_space :: "char \<Rightarrow> bool" where
  "is_c_space c \<longleftrightarrow> c \<in> set [CHR 0x09, CHR 0x0A, CHR 0x0B, CHR 0x0C, CHR 0x0D, CHR 0x20]"

definition int_strip :: "string \<Rightarrow> string" where
  "int_strip s = rev (dropWhile is_c_space (rev (dropWhile is_c_space s)))"

fun digits_from :: "nat \<Rightarrow> string \<Rightarrow> nat option" where
  "digits_from a [] = Some a"
| "digits_from a (c # cs) =
     (if is_digit c then digits_from (10 * a + digit_val c) cs
      else if c = CHR ''_'' then
        (case cs of [] \<Rightarrow> None | d # ds \<Rightarrow> if is_digit d then digits_from a cs else None)
      else None)"

definition parse_nat :: "string \<Rightarrow> nat option" where
  "parse_nat s =
     (case s of [] \<Rightarrow> None | c # cs \<Rightarrow> if is_digit c then digits_from 0 s else None)"

definition py_int :: "string \<Rightarrow> error + int" where
  "py_int s =
     (case int_strip s of
        [] \<Rightarrow> Inl ValueError
      | c # cs \<Rightarrow>
          if c = CHR ''-'' then
            (case parse_nat cs of None \<Rightarrow> Inl ValueError | Some n \<Rightarrow> Inr (- int n))
          else if c = CHR ''+'' then
            (case parse_nat cs of None \<Rightarrow> Inl ValueError | Some n \<Rightarrow> Inr (int n))
          else
            (case parse_nat (c # cs) of None \<Rightarrow> Inl ValueError | Some n \<Rightarrow> Inr (int n)))"

text \<open>\<open>str(n)\<close> of an integer, and \<open>sep.join(...)\<close>.\<close>

definition digit_char :: "nat \<Rightarrow> char" where
  "digit_char d = ''0123456789'' ! d"

function nat_digits :: "nat \<Rightarrow> string" where
  "nat_digits n =
     (if n < 10 then [digit_char n]
      else nat_digits (n div 10) @ [digit_char (n mod 10)])"
  by pat_completeness auto
termination
  by (relation "measure (\<lambda>n. n)") auto

declare nat_digits.simps [simp del]

definition py_str :: "int \<Rightarrow> string" where
  "py_str i =
     (if i < 0 then CHR ''-'' # nat_digits (nat (- i)) else nat_digits (nat i))"

fun join :: "string \<Rightarrow> string list \<Rightarrow> string" where
  "join sep [] = []"
| "join sep [s] = s"
| "join sep (s # t # ts) = s @ sep @ join sep (t # ts)"

text \<open>A list comprehension whose element expression may raise: the first failure wins.\<close>

fun map_err :: "('a \<Rightarrow> error + 'b) \<Rightarrow> 'a list \<Rightarrow> error + 'b list" where
  "map_err f [] = Inr []"
| "map_err f (x # xs) =
     (case f x of
        Inl e \<Rightarrow> Inl e
      | Inr y \<Rightarrow> (case map_err f xs of Inl e \<Rightarrow> Inl e | Inr ys \<Rightarrow> Inr (y # ys)))"

text \<open>\<open>xs.index(v)\<close>: the position of the first occurrence, \<open>ValueError\<close> when there is none.\<close>

fun py_index :: "'a list \<Rightarrow> 'a \<Rightarrow> error + nat" where
  "py_index [] v = Inl ValueError"
| "py_index (x # xs) v =
     (if x = v then Inr 0
      else (case py_index xs v of Inl e \<Rightarrow> Inl e | Inr i \<Rightarrow> Inr (Suc i)))"

text \<open>\<open>dict(pairs)\<close>: a later pair with the same key replaces the earlier one.\<close>

definition dict_of :: "('k \<times> 'v) list \<Rightarrow> ('k \<rightharpoonup> 'v)" where
  "dict_of ps = fold (\<lambda>(k, v) d. d(k \<mapsto> v)) ps Map.empty"

text \<open>
  A data file: its first line as \<open>readline()\<close> returns it (with the line end), and
  the fields of each following line as numbers, field 0 being the push number. Reading
  a number from text and writing it back are taken to be exact.
\<close>

record datafile =
  first_line :: string
  data_rows :: "npfloat list list"

text \<open>
  \<open>np.loadtxt(path, delimiter="\t", skiprows=1, usecols=cols)\<close>: the listed fields of
  every data line, in the order of \<open>cols\<close>; a line without one of them is a
  \<open>ValueError\<close>. The result is kept as a list of rows; numpy's dropping of axes of
  length one is not modelled.
\<close>

definition pick_cols :: "error \<Rightarrow> nat list \<Rightarrow> 'a list \<Rightarrow> error + 'a list" where
  "pick_cols e cols row = map_err (\<lambda>c. if c < length row then Inr (row ! c) else Inl e) cols"

definition loadtxt :: "datafile \<Rightarrow> nat list \<Rightarrow> error + npfloat list list" where
  "loadtxt f cols = map_err (pick_cols ValueError cols) (data_rows f)"

section \<open>Whole-file load, event integration and mass conversion (data\_detector.py)\<close>

definition LOAD_MASSES :: "int list" where
  "LOAD_MASSES = [142, 175, 193, 195]"

definition MASS_FOR_SELECTION :: int where
  "MASS_FOR_SELECTION = 193"

definition MASS_OF_INTEREST :: int where
  "MASS_OF_INTEREST = 175"

text \<open>\<open>available = [int(m) for m in f.readline()[:-1].split("\t")[1:]]\<close>\<close>

definition available :: "string \<Rightarrow> error + int list" where
  "available line = map_err py_int (tl (split_on TAB (butlast line)))"

text \<open>\<open>masses = dict(zip(available, list(range(1, len(available) + 1))))\<close>\<close>

definition masses :: "int list \<Rightarrow> (int \<rightharpoonup> nat)" where
  "masses av = dict_of (zip av [1..<Suc (length av)])"

text \<open>
  The script from the opening of the file to the loaded array, for a tuple
  \<open>load_masses\<close> of requested masses (the script's \<open>LOAD_MASSES\<close>). The message of the
  \<open>assert\<close> joins the integer keys of \<open>masses\<close> as if they were strings, so a missing
  mass ends in \<open>TypeError\<close> unless the header lists no mass at all.
\<close>

definition load_array :: "int list \<Rightarrow> datafile \<Rightarrow> error + npfloat list list" where
  "load_array load_masses f =
     (case available (first_line f) of
        Inl e \<Rightarrow> Inl e
      | Inr av \<Rightarrow>
          (case find (\<lambda>mass. masses av mass = None) load_masses of
             Some mass \<Rightarrow> Inl (if av = [] then AssertionError else TypeError)
           | None \<Rightarrow>
               (case map_err (\<lambda>mass. case masses av mass of
                                        None \<Rightarrow> Inl KeyError | Some c \<Rightarrow> Inr c) load_masses of
                  Inl e \<Rightarrow> Inl e
                | Inr cols \<Rightarrow> loadtxt f cols)))"

text \<open>\<open>mass_dict = dict(zip(LOAD_MASSES, range(len(LOAD_MASSES))))\<close>\<close>

definition mass_dict :: "int list \<Rightarrow> (int \<rightharpoonup> nat)" where
  "mass_dict load_masses = dict_of (zip load_masses [0..<length load_masses])"

text \<open>
  \<open>xs[l:r]\<close> along the first axis: a negative bound counts from the end, and both
  bounds are clipped to the length.
\<close>

definition py_slice :: "'a list \<Rightarrow> int \<Rightarrow> int \<Rightarrow> 'a list" where
  "py_slice xs l r =
     (let n = int (length xs);
          lo = (if l < 0 then max (l + n) 0 else min l n);
          hi = (if r < 0 then max (r + n) 0 else min r n)
      in take (nat (hi - lo)) (drop (nat lo) xs))"

text \<open>
  \<open>sum_I\<close>: for every \<open>side\<close> of the events of the selection mass,
  \<open>np.sum(ar[side[0] : side[1], mass_dict[MASS_OF_INTEREST]], axis=0)\<close>. The array is the
  list of its rows; a column that the array does not have is an \<open>IndexError\<close>.
  The events come from scipy's peak search, which is not modelled: they are an input.
\<close>

definition sum_I ::
  "int list \<Rightarrow> int \<Rightarrow> npfloat list list \<Rightarrow> (int \<times> int) list \<Rightarrow> error + npfloat list" where
  "sum_I load_masses mass_of_interest ar events =
     map_err (\<lambda>side.
        case mass_dict load_masses mass_of_interest of
          None \<Rightarrow> Inl KeyError
        | Some c \<Rightarrow>
            if list_all (\<lambda>row. c < length row) ar
            then Inr (np_sum (map (\<lambda>row. row ! c) (py_slice ar (fst side) (snd side))))
            else Inl IndexError) events"

definition DT :: real where
  "DT = 13 / 10 ^ 6"

definition FLOW :: real where
  "FLOW = 1 / 2"

definition TE :: real where
  "TE = 1 / 10"

text \<open>
  \<open>event_mass_interest = (sum_I - X0) / X1 * DT * FLOW / TE\<close>, element by element;
  \<open>X0\<close> and \<open>X1\<close> are left open in the script ("insert value from calibrate"): the
  intercept and the slope of the calibration line.
\<close>

definition event_mass_interest :: "npfloat \<Rightarrow> npfloat \<Rightarrow> npfloat list \<Rightarrow> npfloat list" where
  "event_mass_interest X0 X1 s =
     map (\<lambda>I. np_div (np_mul (np_mul (np_div (np_sub I X0) X1) (Fin DT)) (Fin FLOW)) (Fin TE)) s"

text \<open>The two steps in sequence, as the script runs them.\<close>

definition integrate_and_convert ::
  "int list \<Rightarrow> int \<Rightarrow> npfloat list list \<Rightarrow> (int \<times> int) list \<Rightarrow> npfloat \<Rightarrow> npfloat
     \<Rightarrow> error + npfloat list" where
  "integrate_and_convert load_masses mass_of_interest ar events X0 X1 =
     (case sum_I load_masses mass_of_interest ar events of
        Inl e \<Rightarrow> Inl e
      | Inr s \<Rightarrow> Inr (event_mass_interest X0 X1 s))"

section \<open>Chunked column selection (data\_selector.py)\<close>

definition CHUNKSIZE :: nat where
  "CHUNKSIZE = 1000000"

text \<open>
  \<open>line_count\<close>: the first line and one line for every data row (a file in which every
  line holds a record).
\<close>

definition line_count :: "datafile \<Rightarrow> nat" where
  "line_count f = Suc (length (data_rows f))"

text \<open>
  \<open>pd.read_csv(infile, delimiter="\t", chunksize=chunksize)\<close>: blocks of at most
  \<open>chunksize\<close> rows, each with the index of its first row; the index runs on from block to block.
  A file without data rows gives one empty block.
\<close>

function read_chunks :: "nat \<Rightarrow> nat \<Rightarrow> 'a list \<Rightarrow> (nat \<times> 'a list) list" where
  "read_chunks chunksize start recs =
     (if chunksize = 0 \<or> recs = [] then []
      else (start, take chunksize recs)
             # read_chunks chunksize (start + chunksize) (drop chunksize recs))"
  by pat_completeness auto
termination
  by (relation "measure (\<lambda>(chunksize, start, recs). length recs)") auto

declare read_chunks.simps [simp del]

definition read_csv :: "nat \<Rightarrow> 'a list \<Rightarrow> (nat \<times> 'a list) list" where
  "read_csv chunksize recs = (if recs = [] then [(0, [])] else read_chunks chunksize 0 recs)"

text \<open>\<open>100 - (1 - chunk.index[-1] / lines) * 100\<close>\<close>

definition progress :: "nat \<Rightarrow> nat \<Rightarrow> real" where
  "progress last_index lines = 100 - (1 - real last_index / real lines) * 100"

text \<open>
  The body of the loop over the blocks: the selected columns of the block are written,
  then the progress is yielded; \<open>chunk.index[-1]\<close> of an empty block is an
  \<open>IndexError\<close>. The result is what a run to the end has written and yielded.
\<close>

fun write_chunks ::
  "nat list \<Rightarrow> nat \<Rightarrow> (nat \<times> npfloat list list) list \<Rightarrow> error + (npfloat list list \<times> real list)" where
  "write_chunks columns lines [] = Inr ([], [])"
| "write_chunks columns lines ((start, chunk) # chunks) =
     (case map_err (pick_cols IndexError columns) chunk of
        Inl e \<Rightarrow> Inl e
      | Inr sel \<Rightarrow>
          if chunk = [] then Inl IndexError
          else (case write_chunks columns lines chunks of
                  Inl e \<Rightarrow> Inl e
                | Inr (out, ps) \<Rightarrow>
                    Inr (sel @ out, progress (start + length chunk - 1) lines # ps)))"

text \<open>
  \<open>data_selector(masses, infile, outfile)\<close> with the block size as a parameter (the
  module's \<open>CHUNKSIZE\<close>): the output file and the list of the yielded values.
\<close>

definition data_selector :: "nat \<Rightarrow> int list \<Rightarrow> datafile \<Rightarrow> error + (datafile \<times> real list)" where
  "data_selector chunksize sel infile =
     (case map_err py_int (drop 2 (split_ws (strip (first_line infile)))) of
        Inl e \<Rightarrow> Inl e
      | Inr available_masses \<Rightarrow>
     (case map_err (py_index available_masses) sel of
        Inl e \<Rightarrow> Inl e
      | Inr idx \<Rightarrow>
          if chunksize = 0 then Inl ValueError
          else
     (case write_chunks (0 # idx) (line_count infile) (read_csv chunksize (data_rows infile)) of
        Inl e \<Rightarrow> Inl e
      | Inr (out, ps) \<Rightarrow>
          Inr (\<lparr>first_line = ''Push number'' @ [TAB] @ join [TAB] (map py_str sel) @ [NL],
                data_rows = out\<rparr>, ps))))"

text \<open>
  The chunked path as a loader: the selection is written by \<open>data_selector\<close>, and the
  written file is read back in one pass by the whole-file loader of data\_detector.py.
\<close>

definition chunked_load :: "nat \<Rightarrow> int list \<Rightarrow> datafile \<Rightarrow> error + npfloat list list" where
  "chunked_load chunksize sel infile =
     (case data_selector chunksize sel infile of
        Inl e \<Rightarrow> Inl e
      | Inr (outfile, ps) \<Rightarrow> load_array sel outfile)"

section \<open>The calibration front end (data\_calibrator.py)\<close>

text \<open>
  What \<open>calibrate\<close> reads from the window: the text of the mass entry, and for every
  row the path in its file label and the number in its concentration entry (the entry
  accepts only text that \<open>float\<close> reads). The files are found through a map from
  paths; a path without a file is the \<open>OSError\<close> of \<open>open\<close>.
\<close>

record calibration_app =
  mass_entry :: string
  rows :: "(string \<times> npfloat) list"

text \<open>
  The loop over the rows: it fills \<open>x\<close>, \<open>y\<close> and \<open>s\<close> with the concentration, the
  mean and the standard deviation of the signal of the mass in each file, and leaves at
  the first row that fails.
\<close>

fun read_points ::
  "(string \<rightharpoonup> datafile) \<Rightarrow> int \<Rightarrow> (string \<times> npfloat) list
     \<Rightarrow> error + (npfloat \<times> npfloat \<times> npfloat) list" where
  "read_points fs mass [] = Inr []"
| "read_points fs mass ((file_path, concentration) # rest) =
     (case fs file_path of
        None \<Rightarrow> Inl FileReadError
      | Some f \<Rightarrow>
     (case map_err py_int (drop 2 (split_ws (first_line f))) of
        Inl e \<Rightarrow> Inl e
      | Inr new_masses \<Rightarrow>
     (case py_index new_masses mass of
        Inl e \<Rightarrow> Inl ChannelNotFoundError
      | Inr i \<Rightarrow>
     (case loadtxt f [i + 1] of
        Inl e \<Rightarrow> Inl e
      | Inr signal_rows \<Rightarrow>
     (case read_points fs mass rest of
        Inl e \<Rightarrow> Inl e
      | Inr pts \<Rightarrow>
          Inr ((concentration, np_mean (concat signal_rows), np_std (concat signal_rows))
               # pts))))))"

definition calibrate ::
  "(string \<rightharpoonup> datafile) \<Rightarrow> calibration_app \<Rightarrow> error + (npfloat \<times> npfloat \<times> npfloat)" where
  "calibrate fs app =
     (if mass_entry app = [] then Inl NoMassSelected
      else
     (case py_int (mass_entry app) of
        Inl e \<Rightarrow> Inl e
      | Inr mass \<Rightarrow>
          if length (rows app) < 3 then Inl InsufficientDataError
          else
     (case read_points fs mass (rows app) of
        Inl e \<Rightarrow> Inl e
      | Inr pts \<Rightarrow>
          (let x = map fst pts;
               y = map (\<lambda>p. fst (snd p)) pts;
               s = map (\<lambda>p. snd (snd p)) pts;
               w = map (\<lambda>sd. np_div (Fin 1) (np_square sd)) s
           in wls x y w))))"

section \<open>Finite inputs: the arithmetic stays in the reals\<close>

lemma foldl_np_add_Fin: "foldl np_add (Fin a) (map Fin xs) = Fin (a + sum_list xs)"
  by (induction xs arbitrary: a) (simp_all add: add.assoc)

lemma np_sum_Fin: "np_sum (map Fin xs) = Fin (sum_list xs)"
  by (simp add: np_sum_def foldl_np_add_Fin)

lemma map2_mul_Fin: "map2 np_mul (map Fin xs) (map Fin ys) = map Fin (map2 (*) xs ys)"
proof (induction xs arbitrary: ys)
  case Nil
  show ?case by simp
next
  case (Cons a xs)
  then show ?case by (cases ys) simp_all
qed

lemma np_bin_mul_Fin:
  "length xs = length ys \<Longrightarrow>
   np_bin np_mul (map Fin xs) (map Fin ys) = Inr (map Fin (map2 (*) xs ys))"
  by (simp add: np_bin_def map2_mul_Fin)

lemma m_Fin:
  "length x = length w \<Longrightarrow> sum_list w \<noteq> 0 \<Longrightarrow>
   m (map Fin x) (map Fin w) = Inr (Fin (wmean x w))"
  by (simp add: m_def np_bin_mul_Fin np_sum_Fin wmean_def del: map_map)

lemma map_sub_Fin: "map (\<lambda>a. np_sub a (Fin c)) (map Fin x) = map Fin (map (\<lambda>a. a - c) x)"
  by (induction x) (simp_all add: np_sub_def)

lemma cov_Fin:
  "length x = length w \<Longrightarrow> length y = length w \<Longrightarrow> sum_list w \<noteq> 0 \<Longrightarrow>
   cov (map Fin x) (map Fin y) (map Fin w) = Inr (Fin (wcov x y w))"
  by (simp add: cov_def m_Fin map_sub_Fin np_bin_mul_Fin np_sum_Fin wcov_def del: map_map)

lemma corr_Fin:
  "length x = length w \<Longrightarrow> length y = length w \<Longrightarrow> sum_list w \<noteq> 0 \<Longrightarrow>
   0 < wcov x x w * wcov y y w \<Longrightarrow>
   corr (map Fin x) (map Fin y) (map Fin w) = Inr (Fin (wcorr x y w))"
  by (auto simp add: corr_def cov_Fin wcorr_def not_less [symmetric])

lemma np_mean_Fin: "x \<noteq> [] \<Longrightarrow> np_mean (map Fin x) = Fin (pmean x)"
  by (simp add: np_mean_def np_sum_Fin pmean_def)

lemma map_sqdev_Fin:
  "map (\<lambda>a. np_square (np_sub a (Fin c))) (map Fin x) = map Fin (map (\<lambda>a. (a - c)\<^sup>2) x)"
  by (induction x) (simp_all add: np_sub_def np_square_def power2_eq_square)

lemma sum_list_nonneg_sq: "0 \<le> sum_list (map (\<lambda>a. (a - c)\<^sup>2) (x::real list))"
  by (induction x) simp_all

lemma np_std_Fin: "x \<noteq> [] \<Longrightarrow> np_std (map Fin x) = Fin (pstd x)"
proof -
  assume ne: "x \<noteq> []"
  have "np_mean (map Fin (map (\<lambda>a. (a - pmean x)\<^sup>2) x))
        = Fin (sum_list (map (\<lambda>a. (a - pmean x)\<^sup>2) x) / real (length x))"
    using ne by (simp add: np_mean_def np_sum_Fin del: map_map)
  moreover have "0 \<le> sum_list (map (\<lambda>a. (a - pmean x)\<^sup>2) x) / real (length x)"
    using sum_list_nonneg_sq [of "pmean x" x] by simp
  ultimately show ?thesis
    using ne by (simp add: np_std_def np_mean_Fin map_sqdev_Fin pstd_def del: map_map)
qed

lemma sq_sum_zero:
  "sum_list (map (\<lambda>a. (a - c)\<^sup>2) (x::real list)) = 0 \<Longrightarrow> \<forall>a\<in>set x. a = c"
proof (induction x)
  case Nil
  show ?case by simp
next
  case (Cons b x)
  have "0 \<le> (b - c)\<^sup>2" by simp
  with Cons.prems sum_list_nonneg_sq [of c x]
  have "(b - c)\<^sup>2 = 0 \<and> sum_list (map (\<lambda>a. (a - c)\<^sup>2) x) = 0"
    by (simp add: add_nonneg_eq_0_iff)
  with Cons.IH show ?case by simp
qed

lemma pstd_zero_const:
  assumes "x \<noteq> []" "pstd x = 0"
  shows "\<forall>a\<in>set x. a = pmean x"
proof -
  have "sum_list (map (\<lambda>a. (a - pmean x)\<^sup>2) x) = 0"
    using assms by (simp add: pstd_def)
  then show ?thesis
    by (rule sq_sum_zero)
qed

lemma wmean_const:
  assumes "length x = length w" "sum_list w \<noteq> 0" "\<forall>a\<in>set x. a = c"
  shows "wmean x w = c"
proof -
  have "sum_list (map2 (*) x w) = c * sum_list w"
    using assms(1,3) by (induction x w rule: list_induct2) (simp_all add: algebra_simps)
  then show ?thesis using assms(2) by (simp add: wmean_def)
qed

lemma wcov_const_zero:
  assumes "length x = length w" "length y = length w" "\<forall>a\<in>set x. a = (c::real)"
  shows "sum_list (map2 (*) (map2 (*) w (map (\<lambda>a. a - c) x)) (map (\<lambda>a. a - d) y)) = 0"
proof -
  have "length x = length y" "length y = length w" using assms by simp_all
  then show ?thesis using assms(3)
    by (induction x y w rule: list_induct3) simp_all
qed

lemma pstd_nonzero:
  assumes "length x = length w" "sum_list w \<noteq> 0" "wcov x x w \<noteq> 0"
  shows "pstd x \<noteq> 0"
proof
  assume z: "pstd x = 0"
  have ne: "x \<noteq> []" using assms by (auto simp: wcov_def)
  have c: "\<forall>a\<in>set x. a = pmean x" using pstd_zero_const [OF ne z] .
  have "wmean x w = pmean x" using wmean_const [OF assms(1,2) c] .
  then have "wcov x x w = 0"
    using wcov_const_zero [OF assms(1) assms(1) c, of "pmean x"] by (simp add: wcov_def)
  with assms(3) show False by simp
qed

lemma wsq_nonneg:
  assumes "length x = length w" "\<forall>v\<in>set w. (0::real) \<le> v"
  shows "0 \<le> sum_list (map2 (*) (map2 (*) w (map (\<lambda>a. a - c) x)) (map (\<lambda>a. a - c) x))"
  using assms
proof (induction x w rule: list_induct2)
  case Nil
  show ?case by simp
next
  case (Cons a x v w)
  have "0 \<le> v * ((a - c) * (a - c))" using Cons.prems by simp
  then show ?case using Cons by (simp add: mult.assoc)
qed

lemma wcov_self_nonneg:
  assumes "length x = length w" "\<forall>v\<in>set w. 0 \<le> v" "0 < sum_list w"
  shows "0 \<le> wcov x x w"
  using wsq_nonneg [OF assms(1,2), of "wmean x w"] assms(3) by (simp add: wcov_def)

lemma np_div_zero_nonfinite: "\<not> is_finite (np_div v (Fin 0))"
  by (cases v) simp_all

lemma np_div_nonfinite: "\<not> is_finite v \<Longrightarrow> \<not> is_finite (np_div v u)"
  by (cases v; cases u) simp_all

lemma np_mul_pos_nonfinite: "\<not> is_finite v \<Longrightarrow> 0 < c \<Longrightarrow> \<not> is_finite (np_mul v (Fin c))"
  by (cases v) simp_all

lemma np_bin_same_length: "length xs = length ys \<Longrightarrow> np_bin f xs ys = Inr (map2 f xs ys)"
  by (simp add: np_bin_def)

lemma m_total: "length x = length w \<Longrightarrow> m x w = Inr (np_div (np_sum (map2 np_mul x w)) (np_sum w))"
  by (simp add: m_def np_bin_same_length)

lemma cov_total:
  assumes "length x = length w" "length y = length w"
  shows "\<exists>v. cov x y w = Inr (np_div v (np_sum w))"
  using assms by (auto simp add: cov_def m_total np_bin_same_length)

lemma cov_zero_weight:
  assumes "length x = length w" "length y = length w" "sum_list w = 0"
  shows "\<exists>v. cov (map Fin x) (map Fin y) (map Fin w) = Inr v \<and> \<not> is_finite v"
proof -
  obtain u where "cov (map Fin x) (map Fin y) (map Fin w) = Inr (np_div u (np_sum (map Fin w)))"
    using cov_total [of "map Fin x" "map Fin w" "map Fin y"] assms by auto
  then show ?thesis using assms(3) by (simp add: np_sum_Fin np_div_zero_nonfinite)
qed

lemma corr_zero_weight:
  assumes "length x = length w" "length y = length w" "sum_list w = 0"
  shows "\<exists>v. corr (map Fin x) (map Fin y) (map Fin w) = Inr v \<and> \<not> is_finite v"
proof -
  obtain cxy where 1: "cov (map Fin x) (map Fin y) (map Fin w) = Inr cxy" "\<not> is_finite cxy"
    using cov_zero_weight [OF assms] by auto
  obtain cxx where 2: "cov (map Fin x) (map Fin x) (map Fin w) = Inr cxx"
    using cov_zero_weight [OF assms(1) assms(1) assms(3)] by auto
  obtain cyy where 3: "cov (map Fin y) (map Fin y) (map Fin w) = Inr cyy"
    using cov_zero_weight [OF assms(2) assms(2) assms(3)] by auto
  show ?thesis using 1 2 3 by (simp add: corr_def np_div_nonfinite)
qed

lemma corr_zero_variance:
  assumes "length x = length w" "length y = length w" "sum_list w \<noteq> 0"
    and "wcov x x w = 0 \<or> wcov y y w = 0"
  shows "\<exists>v. corr (map Fin x) (map Fin y) (map Fin w) = Inr v \<and> \<not> is_finite v"
proof -
  have "wcov x x w * wcov y y w = 0" using assms(4) by auto
  then show ?thesis
    using np_div_zero_nonfinite [of "Fin (wcov x y w)"]
    by (simp add: corr_def cov_Fin [OF assms(1,2,3)] cov_Fin [OF assms(1) assms(1) assms(3)]
        cov_Fin [OF assms(2) assms(2) assms(3)])
qed

lemma wls_Fin:
  assumes len: "length x = length w" "length y = length w" "3 \<le> length w"
    and sw: "sum_list w \<noteq> 0"
    and pos: "0 < wcov x x w * wcov y y w"
  shows "wls (map Fin x) (map Fin y) (map Fin w) =
    Inr (Fin (wcorr x y w * pstd y / pstd x),
         Fin (wmean y w - wmean x w * (wcorr x y w * pstd y / pstd x)),
         Fin ((wcorr x y w)\<^sup>2))"
proof -
  have nz: "wcov x x w \<noteq> 0" "wcov y y w \<noteq> 0" using pos by auto
  have ne: "x \<noteq> []" "y \<noteq> []" using len by auto
  have sx: "pstd x \<noteq> 0" using pstd_nonzero [OF len(1) sw nz(1)] .
  show ?thesis
    using sx by (simp add: wls_def corr_Fin [OF len(1,2) sw pos] np_std_Fin [OF ne(1)]
        np_std_Fin [OF ne(2)] m_Fin [OF len(1) sw] m_Fin [OF len(2) sw] np_sub_def
        np_square_def power2_eq_square)
qed

section \<open>Lists, slices and comprehensions\<close>

lemma map_err_Inr: "(\<And>x. x \<in> set xs \<Longrightarrow> f x = Inr (g x)) \<Longrightarrow> map_err f xs = Inr (map g xs)"
  by (induction xs) simp_all

lemma take_drop_nth: "take k (drop j xs) = map ((!) xs) [j ..< min (j + k) (length xs)]"
proof (rule nth_equalityI)
  show "length (take k (drop j xs)) = length (map ((!) xs) [j ..< min (j + k) (length xs)])"
    by simp
next
  fix i assume "i < length (take k (drop j xs))"
  then have i: "i < k" "j + i < length xs" by auto
  then have "i < min (j + k) (length xs) - j" by simp
  with i show "take k (drop j xs) ! i = map ((!) xs) [j ..< min (j + k) (length xs)] ! i"
    by simp
qed

lemma py_slice_nonneg:
  assumes "0 \<le> l" "0 \<le> r"
  shows "py_slice xs l r = map ((!) xs) [nat l ..< min (nat r) (length xs)]"
proof -
  define a where "a = nat l"
  define b where "b = nat r"
  define n where "n = length xs"
  have l: "l = int a" and r: "r = int b" using assms by (simp_all add: a_def b_def)
  have "py_slice xs l r = take (min b n - min a n) (drop (min a n) xs)"
    unfolding py_slice_def Let_def l r n_def [symmetric]
    by (simp add: min_def nat_diff_distrib')
  also have "\<dots> = map ((!) xs) [min a n ..< min (min a n + (min b n - min a n)) n]"
    unfolding take_drop_nth n_def ..
  also have "[min a n ..< min (min a n + (min b n - min a n)) n] = [a ..< min b n]"
    by (cases "a < n"; cases "a \<le> min b n") (simp_all add: min_def)
  finally show ?thesis by (simp add: a_def b_def n_def)
qed

lemma py_slice_map: "map f (py_slice xs l r) = py_slice (map f xs) l r"
  by (simp add: py_slice_def Let_def take_map drop_map)

section \<open>The channel index of the whole-file loader\<close>

text \<open>
  In data\_detector.py a header that lists each mass once maps the mass at position
  \<open>k\<close> of the list (counted from 0) to column \<open>k + 1\<close>: column 0 is the row counter.
\<close>

lemma fold_upd_map_of:
  "fold (\<lambda>(k, v) d. d(k \<mapsto> v)) ps d = d ++ map_of (rev ps)"
proof (induction ps arbitrary: d)
  case Nil
  show ?case by simp
next
  case (Cons p ps)
  obtain a b where p: "p = (a, b)" by (cases p)
  have "d(a \<mapsto> b) = d ++ [a \<mapsto> b]" by simp
  then show ?case by (simp only: p fold_Cons comp_def case_prod_conv Cons.IH rev.simps map_of_append map_of.simps fst_conv snd_conv map_add_assoc)
qed

lemma dict_of_map_of: "dict_of ps = map_of (rev ps)"
  by (simp add: dict_of_def fold_upd_map_of)

lemma masses_nth:
  assumes "distinct av" "k < length av"
  shows "masses av (av ! k) = Some (Suc k)"
proof -
  have u: "[1..<Suc (length av)] = map Suc [0..<length av]"
    by (simp only: map_Suc_upt One_nat_def)
  define ps where "ps = zip av (map Suc [0..<length av])"
  have d: "distinct (map fst (rev ps))" using assms(1) by (simp add: ps_def rev_map [symmetric])
  have "(av ! k, Suc k) \<in> set (rev ps)"
    using assms(2) by (auto simp add: ps_def set_zip intro!: exI [of _ k])
  then have "map_of (rev ps) (av ! k) = Some (Suc k)"
    using map_of_eq_Some_iff [OF d] by simp
  then show ?thesis
    unfolding masses_def dict_of_map_of u ps_def .
qed

section \<open>Blocks of rows and the progress values\<close>

lemma map_err_append:
  "map_err f (xs @ ys) =
     (case map_err f xs of
        Inl e \<Rightarrow> Inl e
      | Inr a \<Rightarrow> (case map_err f ys of Inl e \<Rightarrow> Inl e | Inr b \<Rightarrow> Inr (a @ b)))"
  by (induction xs) (simp_all split: sum.splits)

lemma map_err_take_drop:
  assumes "map_err f xs = Inr sel"
  obtains a b where "map_err f (take k xs) = Inr a" "map_err f (drop k xs) = Inr b" "sel = a @ b"
proof -
  have "map_err f (take k xs @ drop k xs) = Inr sel" using assms by simp
  then show ?thesis
    unfolding map_err_append using that by (auto split: sum.splits)
qed

lemma write_chunks_progress:
  "write_chunks cols lines chunks = Inr (out, ps) \<Longrightarrow>
   ps = map (\<lambda>(s, ch). progress (s + length ch - 1) lines) chunks"
  by (induction chunks arbitrary: out ps) (auto split: sum.splits if_splits)

lemma write_read_chunks:
  assumes "0 < chunksize" "map_err (pick_cols IndexError cols) recs = Inr sel"
  shows "\<exists>ps. write_chunks cols lines (read_chunks chunksize start recs) = Inr (sel, ps)"
  using assms
proof (induction chunksize start recs arbitrary: sel rule: read_chunks.induct)
  case (1 chunksize start recs)
  show ?case
  proof (cases "recs = []")
    case True
    with "1.prems" show ?thesis by (simp add: read_chunks.simps)
  next
    case False
    obtain a b where ab: "map_err (pick_cols IndexError cols) (take chunksize recs) = Inr a"
      "map_err (pick_cols IndexError cols) (drop chunksize recs) = Inr b" "sel = a @ b"
      using map_err_take_drop [OF "1.prems"(2)] by blast
    have "\<exists>ps. write_chunks cols lines (read_chunks chunksize (start + chunksize) (drop chunksize recs))
             = Inr (b, ps)"
      using "1.IH" [OF _ "1.prems"(1) ab(2)] False "1.prems"(1) by simp
    then obtain ps where ps: "write_chunks cols lines
        (read_chunks chunksize (start + chunksize) (drop chunksize recs)) = Inr (b, ps)" ..
    have ne: "take chunksize recs \<noteq> []" using False "1.prems"(1) by simp
    have "read_chunks chunksize start recs =
            (start, take chunksize recs) # read_chunks chunksize (start + chunksize) (drop chunksize recs)"
      using False "1.prems"(1) by (subst read_chunks.simps) simp
    then show ?thesis using ab ps ne by simp
  qed
qed

lemma read_chunks_nonempty:
  "0 < chunksize \<Longrightarrow> recs \<noteq> [] \<Longrightarrow> read_chunks chunksize start recs \<noteq> []"
  by (subst read_chunks.simps) simp

lemma read_chunks_bounds:
  "0 < chunksize \<Longrightarrow> (s, ch) \<in> set (read_chunks chunksize start recs) \<Longrightarrow>
   ch \<noteq> [] \<and> start \<le> s \<and> s + length ch \<le> start + length recs"
proof (induction chunksize start recs rule: read_chunks.induct)
  case (1 chunksize start recs)
  show ?case
  proof (cases "recs = []")
    case True
    with "1.prems" show ?thesis by (simp add: read_chunks.simps)
  next
    case False
    have unf: "read_chunks chunksize start recs =
            (start, take chunksize recs) # read_chunks chunksize (start + chunksize) (drop chunksize recs)"
      using False "1.prems"(1) by (subst read_chunks.simps) simp
    from "1.prems"(2) [unfolded unf]
    consider "(s, ch) = (start, take chunksize recs)"
      | "(s, ch) \<in> set (read_chunks chunksize (start + chunksize) (drop chunksize recs))"
      by auto
    then show ?thesis
    proof cases
      case 1
      then show ?thesis using False "1.prems"(1) by auto
    next
      case 2
      have "ch \<noteq> [] \<and> start + chunksize \<le> s \<and>
            s + length ch \<le> start + chunksize + length (drop chunksize recs)"
        using "1.IH" [OF _ "1.prems"(1) 2] False "1.prems"(1) by simp
      moreover have "drop chunksize recs \<noteq> []"
        using 2 by (auto simp add: read_chunks.simps [of chunksize "start + chunksize" "[]"])
      then have "chunksize < length recs" by simp
      ultimately show ?thesis by auto
    qed
  qed
qed

lemma read_chunks_last:
  "0 < chunksize \<Longrightarrow> recs \<noteq> [] \<Longrightarrow>
   (case last (read_chunks chunksize start recs) of (s, ch) \<Rightarrow> s + length ch) = start + length recs"
proof (induction chunksize start recs rule: read_chunks.induct)
  case (1 chunksize start recs)
  have unf: "read_chunks chunksize start recs =
            (start, take chunksize recs) # read_chunks chunksize (start + chunksize) (drop chunksize recs)"
    using "1.prems" by (subst read_chunks.simps) simp
  show ?case
  proof (cases "drop chunksize recs = []")
    case True
    then have "read_chunks chunksize (start + chunksize) (drop chunksize recs) = []"
      by (simp add: read_chunks.simps)
    with unf True show ?thesis by simp
  next
    case False
    then have ne: "read_chunks chunksize (start + chunksize) (drop chunksize recs) \<noteq> []"
      using "1.prems"(1) by (rule_tac read_chunks_nonempty)
    have "(case last (read_chunks chunksize (start + chunksize) (drop chunksize recs)) of
             (s, ch) \<Rightarrow> s + length ch) = start + chunksize + length (drop chunksize recs)"
      using "1.IH" [OF _ "1.prems"(1) False] "1.prems" by simp
    with unf ne False show ?thesis by simp
  qed
qed

lemma read_chunks_sorted:
  "0 < chunksize \<Longrightarrow>
   sorted_wrt (<) (map (\<lambda>(s, ch). s + length ch - 1) (read_chunks chunksize start recs))"
proof (induction chunksize start recs rule: read_chunks.induct)
  case (1 chunksize start recs)
  show ?case
  proof (cases "recs = []")
    case True
    then show ?thesis by (simp add: read_chunks.simps)
  next
    case False
    have unf: "read_chunks chunksize start recs =
            (start, take chunksize recs) # read_chunks chunksize (start + chunksize) (drop chunksize recs)"
      using False "1.prems" by (subst read_chunks.simps) simp
    have IH: "sorted_wrt (<) (map (\<lambda>(s, ch). s + length ch - 1)
                (read_chunks chunksize (start + chunksize) (drop chunksize recs)))"
      using "1.IH" [OF _ "1.prems"] False "1.prems" by simp
    have "\<forall>p\<in>set (read_chunks chunksize (start + chunksize) (drop chunksize recs)).
            start + length (take chunksize recs) - 1 < (case p of (s, ch) \<Rightarrow> s + length ch - 1)"
    proof
      fix p assume p: "p \<in> set (read_chunks chunksize (start + chunksize) (drop chunksize recs))"
      obtain s ch where sch: "p = (s, ch)" by (cases p)
      have "ch \<noteq> [] \<and> start + chunksize \<le> s"
        using read_chunks_bounds [OF "1.prems", of s ch "start + chunksize" "drop chunksize recs"]
          p sch by simp
      then have "0 < length ch" "start + chunksize \<le> s" by simp_all
      moreover have "drop chunksize recs \<noteq> []"
        using p by (auto simp add: read_chunks.simps [of chunksize "start + chunksize" "[]"])
      then have "chunksize < length recs" by simp
      then have "length (take chunksize recs) = chunksize" by simp
      ultimately have "start + length (take chunksize recs) - 1 < s + length ch - 1"
        using "1.prems" by linarith
      then show "start + length (take chunksize recs) - 1 < (case p of (s, ch) \<Rightarrow> s + length ch - 1)"
        using sch by simp
    qed
    with IH unf show ?thesis by simp
  qed
qed

lemma progress_eq: "0 < lines \<Longrightarrow> progress i lines = 100 * real i / real lines"
  by (simp add: progress_def field_simps)

lemma progress_mono: "0 < lines \<Longrightarrow> i < j \<Longrightarrow> progress i lines < progress j lines"
  by (simp add: progress_eq divide_strict_right_mono)

lemma progress_sorted:
  "0 < lines \<Longrightarrow> sorted_wrt (<) (map f xs) \<Longrightarrow>
   sorted_wrt (<) (map (\<lambda>x. progress (f x) lines) xs)"
  unfolding sorted_wrt_map
  by (erule sorted_wrt_mono_rel [rotated]) (simp add: progress_mono)

lemma data_selector_chunks:
  assumes "data_selector chunksize sel f = Inr (g, ps)"
  obtains cols where "0 < chunksize" "data_rows f \<noteq> []"
    "write_chunks cols (Suc (length (data_rows f))) (read_chunks chunksize 0 (data_rows f))
       = Inr (data_rows g, ps)"
proof -
  from assms obtain cols out where c: "chunksize \<noteq> 0"
    and w: "write_chunks cols (line_count f) (read_csv chunksize (data_rows f)) = Inr (out, ps)"
    and g: "data_rows g = out"
    by (auto simp add: data_selector_def split: sum.splits if_splits)
  have ne: "data_rows f \<noteq> []"
  proof
    assume "data_rows f = []"
    with w show False by (simp add: read_csv_def pick_cols_def)
  qed
  show ?thesis
    using that [of cols] c w g ne by (simp add: read_csv_def line_count_def)
qed

lemma data_selector_selects:
  assumes parse: "map_err py_int (drop 2 (split_ws (strip (first_line f)))) = Inr av"
    and idx: "map_err (py_index av) sel = Inr idx"
    and pick: "map_err (pick_cols IndexError (0 # idx)) (data_rows f) = Inr out"
    and ne: "data_rows f \<noteq> []" and c: "0 < chunksize"
  shows "\<exists>ps. data_selector chunksize sel f =
           Inr (\<lparr>first_line = ''Push number'' @ [TAB] @ join [TAB] (map py_str sel) @ [NL],
                 data_rows = out\<rparr>, ps)"
proof -
  obtain ps where "write_chunks (0 # idx) (line_count f) (read_chunks chunksize 0 (data_rows f))
      = Inr (out, ps)"
    using write_read_chunks [OF c pick] by blast
  then show ?thesis
    using parse idx ne c by (simp add: data_selector_def read_csv_def)
qed

section \<open>The mass entry, the point count and points on a line\<close>

lemma digit_not_space: "is_digit c \<Longrightarrow> \<not> is_c_space c"
  by (auto simp add: is_digit_def is_c_space_def)

lemma strip_digits: "list_all is_digit s \<Longrightarrow> int_strip s = s"
proof -
  assume a: "list_all is_digit s"
  have 1: "dropWhile is_c_space s = s"
    using a by (cases s) (simp_all add: digit_not_space)
  have "list_all is_digit (rev s)" using a by (simp add: list_all_iff)
  then have 2: "dropWhile is_c_space (rev s) = rev s"
    by (cases "rev s") (simp_all add: digit_not_space)
  show ?thesis by (simp add: int_strip_def 1 2)
qed

lemma digits_from_digits: "list_all is_digit s \<Longrightarrow> \<exists>n. digits_from a s = Some n"
  by (induction s arbitrary: a) simp_all

lemma py_int_digits:
  assumes "s \<noteq> []" "list_all is_digit s"
  shows "\<exists>n. py_int s = Inr (int n)"
proof -
  obtain c cs where s: "s = c # cs" using assms(1) by (cases s) auto
  have c: "is_digit c" using assms(2) s by simp
  then have nc: "c \<noteq> CHR ''-''" "c \<noteq> CHR ''+''" by (auto simp add: is_digit_def)
  obtain n where "digits_from 0 s = Some n" using digits_from_digits [OF assms(2)] by blast
  then have "parse_nat (c # cs) = Some n" using s c by (simp add: parse_nat_def)
  then show ?thesis
    using nc by (simp add: py_int_def strip_digits [OF assms(2), unfolded s] s)
qed

lemma calibrate_few_rows:
  assumes "mass_entry app \<noteq> []" "list_all is_digit (mass_entry app)" "length (rows app) < 3"
  shows "calibrate fs app = Inl InsufficientDataError"
proof -
  obtain n where "py_int (mass_entry app) = Inr (int n)"
    using py_int_digits [OF assms(1,2)] by blast
  then show ?thesis using assms(1,3) by (simp add: calibrate_def)
qed

lemma calibrate_wls:
  assumes "mass_entry app \<noteq> []" "py_int (mass_entry app) = Inr mass" "3 \<le> length (rows app)"
    and "read_points fs mass (rows app) = Inr pts"
  shows "calibrate fs app =
           wls (map fst pts) (map (\<lambda>p. fst (snd p)) pts)
               (map (\<lambda>p. np_div (Fin 1) (np_square (snd (snd p)))) pts)"
  using assms by (simp add: calibrate_def Let_def comp_def)

lemma line_wsum:
  "length x = length w \<Longrightarrow>
   sum_list (map2 (*) (map (\<lambda>t. a * t + b) x) w)
     = a * sum_list (map2 (*) x w) + b * sum_list (w :: real list)"
  by (induction x w rule: list_induct2) (simp_all add: algebra_simps)

lemma line_wmean:
  assumes "length x = length w" "sum_list w \<noteq> 0"
  shows "wmean (map (\<lambda>t. a * t + b) x) w = a * wmean x w + b"
  using assms(2) by (simp add: wmean_def line_wsum [OF assms(1)] add_divide_distrib)

lemma line_wsum_xy:
  "length x = length w \<Longrightarrow>
   sum_list (map2 (*) (map2 (*) w (map (\<lambda>t. t - c) x))
                      (map (\<lambda>u. u - (a * c + b)) (map (\<lambda>t. a * t + b) x)))
     = a * sum_list (map2 (*) (map2 (*) w (map (\<lambda>t. t - c) x)) (map (\<lambda>t. t - (c::real)) x))"
  by (induction x w rule: list_induct2) (simp_all add: algebra_simps)

lemma line_wsum_yy:
  "length x = length w \<Longrightarrow>
   sum_list (map2 (*) (map2 (*) w (map (\<lambda>u. u - (a * c + b)) (map (\<lambda>t. a * t + b) x)))
                      (map (\<lambda>u. u - (a * c + b)) (map (\<lambda>t. a * t + b) x)))
     = a * a * sum_list (map2 (*) (map2 (*) w (map (\<lambda>t. t - c) x)) (map (\<lambda>t. t - (c::real)) x))"
  by (induction x w rule: list_induct2) (simp_all add: algebra_simps)

lemma line_wcov_xy:
  assumes "length x = length w" "sum_list w \<noteq> 0"
  shows "wcov x (map (\<lambda>t. a * t + b) x) w = a * wcov x x w"
  by (simp add: wcov_def line_wmean [OF assms] line_wsum_xy [OF assms(1)] del: map_map)

lemma line_wcov_yy:
  assumes "length x = length w" "sum_list w \<noteq> 0"
  shows "wcov (map (\<lambda>t. a * t + b) x) (map (\<lambda>t. a * t + b) x) w = a * a * wcov x x w"
  by (simp add: wcov_def line_wmean [OF assms] line_wsum_yy [OF assms(1)] del: map_map)

lemma wsq_pos:
  assumes "length x = length w" "\<forall>v\<in>set w. (0::real) < v" "\<exists>t\<in>set x. t \<noteq> c"
  shows "0 < sum_list (map2 (*) (map2 (*) w (map (\<lambda>a. a - c) x)) (map (\<lambda>a. a - c) x))"
  using assms
proof (induction x w rule: list_induct2)
  case Nil
  then show ?case by simp
next
  case (Cons t x v w)
  have v: "0 < v" and w: "\<forall>v\<in>set w. 0 \<le> v" using Cons.prems(1) by auto
  have rest: "0 \<le> sum_list (map2 (*) (map2 (*) w (map (\<lambda>a. a - c) x)) (map (\<lambda>a. a - c) x))"
    using wsq_nonneg [OF Cons.hyps w] .
  have hd: "0 \<le> v * (t - c) * (t - c)" using v by (simp add: mult.assoc)
  show ?case
  proof (cases "t = c")
    case True
    then have "\<exists>t\<in>set x. t \<noteq> c" using Cons.prems(2) by auto
    then have "0 < sum_list (map2 (*) (map2 (*) w (map (\<lambda>a. a - c) x)) (map (\<lambda>a. a - c) x))"
      using Cons.IH Cons.prems(1) by simp
    then show ?thesis using True by simp
  next
    case False
    then have "0 < (t - c) * (t - c)" by (auto simp add: zero_less_mult_iff)
    then have "0 < v * ((t - c) * (t - c))" using v by simp
    then show ?thesis using rest by (simp add: mult.assoc)
  qed
qed

lemma distinct_not_const:
  assumes "distinct x" "2 \<le> length x"
  shows "\<exists>t\<in>set x. t \<noteq> c"
proof -
  obtain p q r where "x = p # q # r" using assms(2) by (cases x; cases "tl x") auto
  then have "p \<noteq> q" "p \<in> set x" "q \<in> set x" using assms(1) by auto
  then show ?thesis by metis
qed

lemma sum_list_pos: "w \<noteq> [] \<Longrightarrow> \<forall>v\<in>set w. (0::real) < v \<Longrightarrow> 0 < sum_list w"
proof (induction w)
  case Nil
  then show ?case by simp
next
  case (Cons a w)
  have "0 \<le> sum_list w" using Cons.prems(2) by (intro sum_list_nonneg) (simp add: less_imp_le)
  moreover have "0 < a" using Cons.prems(2) by simp
  ultimately show ?case by simp
qed

lemma wcov_self_pos:
  assumes "length x = length w" "\<forall>v\<in>set w. 0 < v" "distinct x" "2 \<le> length x"
  shows "0 < wcov x x w"
proof -
  have "w \<noteq> []" using assms(1,4) by auto
  then have "0 < sum_list w" using assms(2) by (rule sum_list_pos)
  moreover have "0 < sum_list (map2 (*) (map2 (*) w (map (\<lambda>a. a - wmean x w) x))
      (map (\<lambda>a. a - wmean x w) x))"
    using wsq_pos [OF assms(1,2) distinct_not_const [OF assms(3,4)]] .
  ultimately show ?thesis by (simp add: wcov_def)
qed

lemma line_pmean: "x \<noteq> [] \<Longrightarrow> pmean (map (\<lambda>t. a * t + b) x) = a * pmean x + b"
proof -
  assume ne: "x \<noteq> []"
  have "sum_list (map (\<lambda>t. a * t + b) x) = a * sum_list x + b * real (length x)"
    by (induction x) (simp_all add: algebra_simps)
  then show ?thesis using ne by (simp add: pmean_def add_divide_distrib)
qed

lemma line_pstd: "x \<noteq> [] \<Longrightarrow> pstd (map (\<lambda>t. a * t + b) x) = \<bar>a\<bar> * pstd x"
proof -
  assume ne: "x \<noteq> []"
  have "sum_list (map (\<lambda>u. (u - (a * c + b))\<^sup>2) (map (\<lambda>t. a * t + b) x))
          = a\<^sup>2 * sum_list (map (\<lambda>t. (t - c)\<^sup>2) x)" for c
    by (induction x) (simp_all add: algebra_simps power2_eq_square)
  then have "pstd (map (\<lambda>t. a * t + b) x)
               = sqrt (a\<^sup>2 * (sum_list (map (\<lambda>t. (t - pmean x)\<^sup>2) x) / real (length x)))"
    by (simp add: pstd_def line_pmean [OF ne] del: map_map)
  also have "\<dots> = \<bar>a\<bar> * pstd x"
    by (simp only: real_sqrt_mult real_sqrt_abs pstd_def)
  finally show ?thesis .
qed

lemma wls_line:
  assumes len: "length x = length w" and n: "3 \<le> length w"
    and pos: "\<forall>v\<in>set w. 0 < v" and d: "distinct x"
  shows "wls (map Fin x) (map Fin (map (\<lambda>t. a * t + b) x)) (map Fin w) =
           Inr (if a = 0 then (NaN, NaN, NaN) else (Fin a, Fin b, Fin 1))"
proof -
  define y where "y = map (\<lambda>t. a * t + b) x"
  have leny: "length y = length w" using len by (simp add: y_def)
  have "w \<noteq> []" using n by auto
  then have sw: "0 < sum_list w" using pos by (rule sum_list_pos)
  then have sw0: "sum_list w \<noteq> 0" by simp
  have cxx: "0 < wcov x x w" using wcov_self_pos [OF len pos d] len n by simp
  have cxy: "wcov x y w = a * wcov x x w" unfolding y_def using line_wcov_xy [OF len sw0] .
  have cyy: "wcov y y w = a * a * wcov x x w" unfolding y_def using line_wcov_yy [OF len sw0] .
  have ne: "x \<noteq> []" "y \<noteq> []" using len leny n by auto
  have sx: "0 < pstd x"
  proof -
    have "pstd x \<noteq> 0" using pstd_nonzero [OF len sw0] cxx by simp
    moreover have "0 \<le> pstd x" by (simp add: pstd_def sum_list_nonneg_sq)
    ultimately show ?thesis by simp
  qed
  have sy: "pstd y = \<bar>a\<bar> * pstd x" unfolding y_def using line_pstd [OF ne(1)] .
  have my: "wmean y w = a * wmean x w + b" unfolding y_def using line_wmean [OF len sw0] .
  have "wls (map Fin x) (map Fin y) (map Fin w) =
           Inr (if a = 0 then (NaN, NaN, NaN) else (Fin a, Fin b, Fin 1))"
  proof (cases "a = 0")
    case True
    have "corr (map Fin x) (map Fin y) (map Fin w) = Inr NaN"
      using True cxy cyy
      by (simp add: corr_def cov_Fin [OF len leny sw0] cov_Fin [OF len len sw0] cov_Fin [OF leny leny sw0])
    then show ?thesis
      using True by (simp add: wls_def m_Fin [OF len sw0] m_Fin [OF leny sw0] np_sub_def np_square_def)
  next
    case False
    have "0 < a * a" using False by (auto simp add: zero_less_mult_iff)
    then have p: "0 < wcov x x w * wcov y y w" using cxx by (simp add: cyy)
    have "sqrt (wcov x x w * wcov y y w) = \<bar>a\<bar> * wcov x x w"
    proof -
      have "wcov x x w * wcov y y w = (\<bar>a\<bar> * wcov x x w)\<^sup>2"
        by (simp add: cyy power2_eq_square algebra_simps)
      then show ?thesis using cxx by simp
    qed
    then have c: "wcorr x y w = a / \<bar>a\<bar>" using cxx by (simp add: wcorr_def cxy)
    have slope: "wcorr x y w * pstd y / pstd x = a" using sx False by (simp add: c sy)
    have r2: "(wcorr x y w)\<^sup>2 = 1" using False by (simp add: c power2_eq_square)
    show ?thesis
      using wls_Fin [OF len leny n sw0 p] False
      by (simp add: slope r2 my)
  qed
  then show ?thesis by (simp only: y_def)
qed

lemma zip3_maps:
  assumes "length x = length y" "length y = length s"
  shows "map fst (zip x (zip y s)) = x"
    and "map (\<lambda>p. fst (snd p)) (zip x (zip y s)) = y"
    and "map (\<lambda>p. f (snd (snd p))) (zip x (zip y s)) = map f s"
  using assms by (induction x y s rule: list_induct3) simp_all

lemma weights_Fin:
  "list_all (\<lambda>v. 0 < v) s \<Longrightarrow>
   map (\<lambda>sd. np_div (Fin 1) (np_square sd)) (map Fin s) = map Fin (map (\<lambda>v. 1 / (v * v)) s)"
  by (induction s) (simp_all add: np_square_def)

section \<open>The regression\<close>

text \<open>
  Claim C1, as amended. For real vectors \<open>x\<close>, \<open>y\<close>, \<open>w\<close> of one length, with at least
  three entries, a total weight that is not zero and a positive product of the two
  weighted self-covariances (so both are non-zero and of one sign, as they are for
  positive weights), \<open>wls\<close> returns the triple of the contract: the slope is the
  weighted correlation times the population standard deviation of \<open>y\<close> over that of
  \<open>x\<close>, the intercept is the weighted mean of \<open>y\<close> minus the weighted mean of \<open>x\<close>
  times the slope, and the third component is the square of the weighted correlation.
\<close>

theorem wls_returns_weighted_formula:
  assumes len: "length x = length w" "length y = length w" "3 \<le> length w"
    and sw: "sum_list w \<noteq> 0"
    and pos: "0 < wcov x x w * wcov y y w"
  shows "wls (map Fin x) (map Fin y) (map Fin w) =
    Inr (Fin (wcorr x y w * pstd y / pstd x),
         Fin (wmean y w - wmean x w * (wcorr x y w * pstd y / pstd x)),
         Fin ((wcorr x y w)\<^sup>2))"
  using assms by (rule wls_Fin)

theorem wls_returns_weighted_formula_witness:
  "length [0, 1, 2 :: real] = length [1, 2, 1 :: real] \<and>
   length [1, 3, 4 :: real] = length [1, 2, 1 :: real] \<and>
   3 \<le> length [1, 2, 1 :: real] \<and> sum_list [1, 2, 1 :: real] \<noteq> 0 \<and>
   0 < wcov [0, 1, 2] [0, 1, 2] [1, 2, 1] * wcov [1, 3, 4] [1, 3, 4] [1, 2, 1] \<and>
   wls (map Fin [0, 1, 2]) (map Fin [1, 3, 4]) (map Fin [1, 2, 1]) =
     Inr (Fin (wcorr [0, 1, 2] [1, 3, 4] [1, 2, 1] * pstd [1, 3, 4] / pstd [0, 1, 2]),
          Fin (wmean [1, 3, 4] [1, 2, 1] - wmean [0, 1, 2] [1, 2, 1] *
                (wcorr [0, 1, 2] [1, 3, 4] [1, 2, 1] * pstd [1, 3, 4] / pstd [0, 1, 2])),
          Fin ((wcorr [0, 1, 2] [1, 3, 4] [1, 2, 1])\<^sup>2))"
proof -
  have p: "0 < wcov [0, 1, 2] [0, 1, 2] [1, 2, 1] * wcov [1, 3, 4] [1, 3, 4] [1, 2, 1]"
    by (simp add: wcov_def wmean_def)
  show ?thesis
    using p wls_returns_weighted_formula [of "[0, 1, 2]" "[1, 2, 1]" "[1, 3, 4]"] by simp
qed

text \<open>
  Without the sign condition the statement of C1 fails. With the weights \<open>1, 1, -1\<close>
  the total weight is \<open>1\<close>, neither vector is constant, and the weighted
  self-covariances are \<open>-4\<close> and \<open>1/2\<close>, both non-zero; their product is negative,
  \<open>np.sqrt\<close> returns \<open>nan\<close>, and so does \<open>wls\<close> in all three components.
\<close>

theorem wls_negative_product_counterexample:
  "length [0, 1, 2 :: real] = length [1, 1, - 1 :: real] \<and>
   length [0, 1, 1 / 2 :: real] = length [1, 1, - 1 :: real] \<and>
   3 \<le> length [1, 1, - 1 :: real] \<and> sum_list [1, 1, - 1 :: real] \<noteq> 0 \<and>
   wcov [0, 1, 2] [0, 1, 2] [1, 1, - 1] \<noteq> 0 \<and>
   wcov [0, 1, 1 / 2] [0, 1, 1 / 2] [1, 1, - 1] \<noteq> 0 \<and>
   pstd [0, 1, 2] \<noteq> 0 \<and> pstd [0, 1, 1 / 2] \<noteq> 0 \<and>
   wls (map Fin [0, 1, 2]) (map Fin [0, 1, 1 / 2]) (map Fin [1, 1, - 1]) = Inr (NaN, NaN, NaN) \<and>
   wls (map Fin [0, 1, 2]) (map Fin [0, 1, 1 / 2]) (map Fin [1, 1, - 1]) \<noteq>
     Inr (Fin (wcorr [0, 1, 2] [0, 1, 1 / 2] [1, 1, - 1] * pstd [0, 1, 1 / 2] / pstd [0, 1, 2]),
          Fin (wmean [0, 1, 1 / 2] [1, 1, - 1] - wmean [0, 1, 2] [1, 1, - 1] *
                (wcorr [0, 1, 2] [0, 1, 1 / 2] [1, 1, - 1] * pstd [0, 1, 1 / 2] / pstd [0, 1, 2])),
          Fin ((wcorr [0, 1, 2] [0, 1, 1 / 2] [1, 1, - 1])\<^sup>2))"
proof -
  have 1: "wcov [0, 1, 2] [0, 1, 2] [1, 1, - 1] = - 4"
    by (simp add: wcov_def wmean_def)
  have 2: "wcov [0, 1, 1 / 2] [0, 1, 1 / 2] [1, 1, - 1] = 1 / 2"
    by (simp add: wcov_def wmean_def)
  have 3: "pstd [0, 1, 2] \<noteq> 0" "pstd [0, 1, 1 / 2] \<noteq> 0"
    by (simp_all add: pstd_def pmean_def power2_eq_square)
  have 4: "wls (map Fin [0, 1, 2]) (map Fin [0, 1, 1 / 2]) (map Fin [1, 1, - 1]) = Inr (NaN, NaN, NaN)"
    by (simp add: wls_def corr_def cov_def m_def np_bin_def np_sum_def np_sub_def np_std_def
        np_mean_def np_square_def)
  show ?thesis
    unfolding 4 using 1 2 3 by simp
qed

section \<open>Weighted statistics\<close>

text \<open>
  Claim C10. For a value vector and a weight vector of one length with all weights
  nonnegative and a positive total weight, the weighted self-covariance that \<open>cov\<close>
  returns is a nonnegative real; so the product under the square root of \<open>corr\<close> is
  nonnegative, and \<open>np.sqrt\<close> returns its real square root, not \<open>nan\<close>.
\<close>

theorem cov_self_nonnegative:
  assumes "length x = length w" "length y = length w"
    and "\<forall>v\<in>set w. 0 \<le> v" "0 < sum_list w"
  shows "cov (map Fin x) (map Fin x) (map Fin w) = Inr (Fin (wcov x x w)) \<and> 0 \<le> wcov x x w \<and>
         cov (map Fin y) (map Fin y) (map Fin w) = Inr (Fin (wcov y y w)) \<and> 0 \<le> wcov y y w \<and>
         0 \<le> wcov x x w * wcov y y w \<and>
         np_sqrt (np_mul (Fin (wcov x x w)) (Fin (wcov y y w))) = Fin (sqrt (wcov x x w * wcov y y w))"
proof -
  have sw: "sum_list w \<noteq> 0" using assms(4) by simp
  have cx: "0 \<le> wcov x x w" using wcov_self_nonneg [OF assms(1,3,4)] .
  have cy: "0 \<le> wcov y y w" using wcov_self_nonneg [OF assms(2,3,4)] .
  have p: "0 \<le> wcov x x w * wcov y y w" using cx cy by simp
  show ?thesis
    using cx cy p by (simp add: cov_Fin [OF assms(1) assms(1) sw] cov_Fin [OF assms(2) assms(2) sw] not_less [symmetric])
qed

theorem cov_self_nonnegative_witness:
  "length [0, 1, 2 :: real] = length [1, 2, 1 :: real] \<and>
   length [1, 3, 4 :: real] = length [1, 2, 1 :: real] \<and>
   list_all (\<lambda>v. 0 \<le> v) [1, 2, 1 :: real] \<and> 0 < sum_list [1, 2, 1 :: real] \<and>
   cov (map Fin [0, 1, 2]) (map Fin [0, 1, 2]) (map Fin [1, 2, 1]) = Inr (Fin (1 / 2)) \<and>
   cov (map Fin [1, 3, 4]) (map Fin [1, 3, 4]) (map Fin [1, 2, 1]) = Inr (Fin (19 / 16)) \<and>
   np_sqrt (np_mul (Fin (1 / 2)) (Fin (19 / 16))) = Fin (sqrt (19 / 32))"
proof -
  have 1: "wcov [0, 1, 2] [0, 1, 2] [1, 2, 1] = 1 / 2"
    by (simp add: wcov_def wmean_def)
  have 2: "wcov [1, 3, 4] [1, 3, 4] [1, 2, 1] = 19 / 16"
    by (simp add: wcov_def wmean_def power2_eq_square)
  show ?thesis
    using cov_self_nonnegative [of "[0, 1, 2]" "[1, 2, 1]" "[1, 3, 4]"] by (simp add: 1 2)
qed

text \<open>
  Claim C5, as amended. The weighted-statistics functions raise nothing on degenerate
  input: the division by zero goes through and the result is \<open>nan\<close>, \<open>inf\<close> or
  \<open>-inf\<close>. For finite vectors of one length, when the total weight is zero all of
  \<open>m\<close>, \<open>cov\<close> and \<open>corr\<close> return a value that is not finite; when the total weight
  is not zero and one of the weighted self-covariances is zero, \<open>corr\<close> returns a value
  that is not finite.
\<close>

theorem degenerate_input_returns_nonfinite:
  assumes "length x = length w" "length y = length w"
  shows "(sum_list w = 0 \<longrightarrow>
            (\<exists>v. m (map Fin x) (map Fin w) = Inr v \<and> \<not> is_finite v) \<and>
            (\<exists>v. cov (map Fin x) (map Fin y) (map Fin w) = Inr v \<and> \<not> is_finite v) \<and>
            (\<exists>v. corr (map Fin x) (map Fin y) (map Fin w) = Inr v \<and> \<not> is_finite v)) \<and>
         (sum_list w \<noteq> 0 \<and> (wcov x x w = 0 \<or> wcov y y w = 0) \<longrightarrow>
            (\<exists>v. corr (map Fin x) (map Fin y) (map Fin w) = Inr v \<and> \<not> is_finite v))"
proof (intro conjI impI)
  assume z: "sum_list w = 0"
  show "\<exists>v. m (map Fin x) (map Fin w) = Inr v \<and> \<not> is_finite v"
    using assms(1) z by (simp add: m_total np_sum_Fin np_div_zero_nonfinite)
  show "\<exists>v. cov (map Fin x) (map Fin y) (map Fin w) = Inr v \<and> \<not> is_finite v"
    using cov_zero_weight [OF assms z] .
  show "\<exists>v. corr (map Fin x) (map Fin y) (map Fin w) = Inr v \<and> \<not> is_finite v"
    using corr_zero_weight [OF assms z] .
next
  assume "sum_list w \<noteq> 0 \<and> (wcov x x w = 0 \<or> wcov y y w = 0)"
  then show "\<exists>v. corr (map Fin x) (map Fin y) (map Fin w) = Inr v \<and> \<not> is_finite v"
    using corr_zero_variance [OF assms] by blast
qed

theorem degenerate_input_returns_nonfinite_witness:
  "length [1, 0 :: real] = length [1, - 1 :: real] \<and>
   length [2, 5 :: real] = length [1, - 1 :: real] \<and>
   sum_list [1, - 1 :: real] = 0 \<and>
   (\<exists>v. m (map Fin [1, 0]) (map Fin [1, - 1]) = Inr v \<and> \<not> is_finite v) \<and>
   (\<exists>v. cov (map Fin [1, 0]) (map Fin [2, 5]) (map Fin [1, - 1]) = Inr v \<and> \<not> is_finite v) \<and>
   (\<exists>v. corr (map Fin [1, 0]) (map Fin [2, 5]) (map Fin [1, - 1]) = Inr v \<and> \<not> is_finite v) \<and>
   length [1, 1 :: real] = length [1, 1 :: real] \<and>
   length [1, 2 :: real] = length [1, 1 :: real] \<and>
   sum_list [1, 1 :: real] \<noteq> 0 \<and> wcov [1, 1] [1, 1] [1, 1] = 0 \<and>
   (\<exists>v. corr (map Fin [1, 1]) (map Fin [1, 2]) (map Fin [1, 1]) = Inr v \<and> \<not> is_finite v)"
proof -
  have z: "wcov [1, 1] [1, 1] [1, 1] = 0"
    by (simp add: wcov_def wmean_def)
  show ?thesis
    using degenerate_input_returns_nonfinite [of "[1, 0]" "[1, - 1]" "[2, 5]"]
      degenerate_input_returns_nonfinite [of "[1, 1]" "[1, 1]" "[1, 2]"] z
    by simp
qed

text \<open>
  C5 as stated fails: with the single weight \<open>0\<close> the mean and the covariance are
  \<open>0/0 = nan\<close>, and for a constant \<open>x\<close> the correlation is \<open>0/0 = nan\<close>; none of
  the calls ends in \<open>DegenerateInputError\<close>.
\<close>

theorem degenerate_input_counterexample:
  "m [Fin 1] [Fin 0] = Inr NaN \<and> m [Fin 1] [Fin 0] \<noteq> Inl DegenerateInputError \<and>
   cov [Fin 1] [Fin 1] [Fin 0] = Inr NaN \<and> cov [Fin 1] [Fin 1] [Fin 0] \<noteq> Inl DegenerateInputError \<and>
   corr [Fin 1, Fin 1] [Fin 1, Fin 2] [Fin 1, Fin 1] = Inr NaN \<and>
   corr [Fin 1, Fin 1] [Fin 1, Fin 2] [Fin 1, Fin 1] \<noteq> Inl DegenerateInputError"
  by (simp add: corr_def cov_def m_def np_bin_def np_sum_def np_sub_def)

section \<open>The preconditions of the calibration\<close>

text \<open>
  Claim C9, as amended. With a mass in the mass entry (a non-empty string of digits, as
  the entry admits), \<open>calibrate\<close> with fewer than three rows, so with exactly two,
  ends in the insufficient-data error whatever the files are: no file is read and no
  regression is run. With three rows whose files give points on a line
  \<open>y = a * x + b\<close>, distinct concentrations and positive finite standard deviations
  (so positive weights), it returns a result: slope \<open>a\<close>, intercept \<open>b\<close> and
  \<open>r\<^sup>2 = 1\<close>, or three times \<open>nan\<close>, without an error, when the line is
  horizontal. The same holds for \<open>wls\<close> called with three such points and any positive
  weights.
\<close>

theorem calibrate_point_count:
  assumes "mass_entry app \<noteq> []" and "list_all is_digit (mass_entry app)"
  shows "(length (rows app) < 3 \<longrightarrow> calibrate fs app = Inl InsufficientDataError) \<and>
         (length (rows app) = 3 \<and> py_int (mass_entry app) = Inr mass \<and>
          read_points fs mass (rows app) =
            Inr (zip (map Fin x) (zip (map Fin (map (\<lambda>t. a * t + b) x)) (map Fin s))) \<and>
          length x = 3 \<and> length s = 3 \<and> distinct x \<and> list_all (\<lambda>v. 0 < v) s \<longrightarrow>
          calibrate fs app = Inr (if a = 0 then (NaN, NaN, NaN) else (Fin a, Fin b, Fin 1))) \<and>
         (length x' = 3 \<and> length w = 3 \<and> distinct x' \<and> list_all (\<lambda>v. 0 < v) w \<longrightarrow>
          wls (map Fin x') (map Fin (map (\<lambda>t. a' * t + b') x')) (map Fin w) =
            Inr (if a' = 0 then (NaN, NaN, NaN) else (Fin a', Fin b', Fin 1)))"
proof (intro conjI impI)
  assume "length (rows app) < 3"
  then show "calibrate fs app = Inl InsufficientDataError"
    using assms by (intro calibrate_few_rows)
next
  assume h: "length (rows app) = 3 \<and> py_int (mass_entry app) = Inr mass \<and>
          read_points fs mass (rows app) =
            Inr (zip (map Fin x) (zip (map Fin (map (\<lambda>t. a * t + b) x)) (map Fin s))) \<and>
          length x = 3 \<and> length s = 3 \<and> distinct x \<and> list_all (\<lambda>v. 0 < v) s"
  define w where "w = map (\<lambda>v. 1 / (v * v)) s"
  have len: "length x = length w" "3 \<le> length w" using h by (simp_all add: w_def)
  have pos: "\<forall>v\<in>set w. 0 < v" using h by (auto simp add: w_def list_all_iff)
  define X where "X = map Fin x"
  define Y where "Y = map Fin (map (\<lambda>t. a * t + b) x)"
  define S where "S = map Fin s"
  have l1: "length X = length Y" and l2: "length Y = length S"
    using h by (simp_all add: X_def Y_def S_def)
  have rp: "read_points fs mass (rows app) = Inr (zip X (zip Y S))"
    using h by (simp only: X_def Y_def S_def)
  have m: "py_int (mass_entry app) = Inr mass" and r: "3 \<le> length (rows app)"
    using h by simp_all
  have "calibrate fs app =
          wls (map fst (zip X (zip Y S))) (map (\<lambda>p. fst (snd p)) (zip X (zip Y S)))
              (map (\<lambda>p. np_div (Fin 1) (np_square (snd (snd p)))) (zip X (zip Y S)))"
    using calibrate_wls [OF assms(1) m r rp] .
  also have "\<dots> = wls X Y (map (\<lambda>sd. np_div (Fin 1) (np_square sd)) S)"
    by (simp only: zip3_maps(1,2) [OF l1 l2]
        zip3_maps(3) [OF l1 l2, of "\<lambda>sd. np_div (Fin 1) (np_square sd)"])
  finally have "calibrate fs app =
          wls (map Fin x) (map Fin (map (\<lambda>t. a * t + b) x))
              (map (\<lambda>sd. np_div (Fin 1) (np_square sd)) (map Fin s))"
    by (simp only: X_def Y_def S_def)
  also have "\<dots> = wls (map Fin x) (map Fin (map (\<lambda>t. a * t + b) x)) (map Fin w)"
    using h by (simp only: weights_Fin w_def)
  also have "\<dots> = Inr (if a = 0 then (NaN, NaN, NaN) else (Fin a, Fin b, Fin 1))"
    using wls_line [OF len pos] h by simp
  finally show "calibrate fs app = Inr (if a = 0 then (NaN, NaN, NaN) else (Fin a, Fin b, Fin 1))" .
next
  assume h: "length x' = 3 \<and> length w = 3 \<and> distinct x' \<and> list_all (\<lambda>v. 0 < v) w"
  then have "length x' = length w" "3 \<le> length w" "\<forall>v\<in>set w. 0 < v" "distinct x'"
    by (simp_all add: list_all_iff)
  then show "wls (map Fin x') (map Fin (map (\<lambda>t. a' * t + b') x')) (map Fin w) =
            Inr (if a' = 0 then (NaN, NaN, NaN) else (Fin a', Fin b', Fin 1))"
    by (rule wls_line)
qed

theorem calibrate_point_count_witness:
  "list_all is_digit ''175'' \<and>
   calibrate
     [''a.txt'' \<mapsto> \<lparr>first_line = ''Push number'' @ [TAB] @ ''175'' @ [NL],
                          data_rows = [[Fin 0, Fin 1], [Fin 1, Fin 3]]\<rparr>,
      ''b.txt'' \<mapsto> \<lparr>first_line = ''Push number'' @ [TAB] @ ''175'' @ [NL],
                          data_rows = [[Fin 0, Fin 3], [Fin 1, Fin 5]]\<rparr>,
      ''c.txt'' \<mapsto> \<lparr>first_line = ''Push number'' @ [TAB] @ ''175'' @ [NL],
                          data_rows = [[Fin 0, Fin 5], [Fin 1, Fin 7]]\<rparr>]
     \<lparr>mass_entry = ''175'', rows = [(''a.txt'', Fin 1), (''b.txt'', Fin 2)]\<rparr> = Inl InsufficientDataError \<and>
   py_int ''175'' = Inr 175 \<and>
   read_points
     [''a.txt'' \<mapsto> \<lparr>first_line = ''Push number'' @ [TAB] @ ''175'' @ [NL],
                          data_rows = [[Fin 0, Fin 1], [Fin 1, Fin 3]]\<rparr>,
      ''b.txt'' \<mapsto> \<lparr>first_line = ''Push number'' @ [TAB] @ ''175'' @ [NL],
                          data_rows = [[Fin 0, Fin 3], [Fin 1, Fin 5]]\<rparr>,
      ''c.txt'' \<mapsto> \<lparr>first_line = ''Push number'' @ [TAB] @ ''175'' @ [NL],
                          data_rows = [[Fin 0, Fin 5], [Fin 1, Fin 7]]\<rparr>]
     175 [(''a.txt'', Fin 1), (''b.txt'', Fin 2), (''c.txt'', Fin 3)] =
     Inr [(Fin 1, Fin 2, Fin 1), (Fin 2, Fin 4, Fin 1), (Fin 3, Fin 6, Fin 1)] \<and>
   distinct [1, 2, 3 :: real] \<and> list_all (\<lambda>v. 0 < v) [1, 1, 1 :: real] \<and>
   calibrate
     [''a.txt'' \<mapsto> \<lparr>first_line = ''Push number'' @ [TAB] @ ''175'' @ [NL],
                          data_rows = [[Fin 0, Fin 1], [Fin 1, Fin 3]]\<rparr>,
      ''b.txt'' \<mapsto> \<lparr>first_line = ''Push number'' @ [TAB] @ ''175'' @ [NL],
                          data_rows = [[Fin 0, Fin 3], [Fin 1, Fin 5]]\<rparr>,
      ''c.txt'' \<mapsto> \<lparr>first_line = ''Push number'' @ [TAB] @ ''175'' @ [NL],
                          data_rows = [[Fin 0, Fin 5], [Fin 1, Fin 7]]\<rparr>]
     \<lparr>mass_entry = ''175'',
       rows = [(''a.txt'', Fin 1), (''b.txt'', Fin 2), (''c.txt'', Fin 3)]\<rparr> = Inr (Fin 2, Fin 0, Fin 1) \<and>
   list_all (\<lambda>v. 0 < v) [1, 2, 1 :: real] \<and>
   wls (map Fin [1, 2, 3]) (map Fin [5, 8, 11]) (map Fin [1, 2, 1]) = Inr (Fin 3, Fin 2, Fin 1)"
proof -
  have d: "list_all is_digit ''175''" by (simp add: is_digit_def)
  have i: "py_int ''175'' = Inr 175"
    by (simp add: py_int_def int_strip_def is_c_space_def strip_def is_space_def parse_nat_def is_digit_def digit_val_def)
  have rp: "read_points
     [''a.txt'' \<mapsto> \<lparr>first_line = ''Push number'' @ [TAB] @ ''175'' @ [NL],
                          data_rows = [[Fin 0, Fin 1], [Fin 1, Fin 3]]\<rparr>,
      ''b.txt'' \<mapsto> \<lparr>first_line = ''Push number'' @ [TAB] @ ''175'' @ [NL],
                          data_rows = [[Fin 0, Fin 3], [Fin 1, Fin 5]]\<rparr>,
      ''c.txt'' \<mapsto> \<lparr>first_line = ''Push number'' @ [TAB] @ ''175'' @ [NL],
                          data_rows = [[Fin 0, Fin 5], [Fin 1, Fin 7]]\<rparr>]
     175 [(''a.txt'', Fin 1), (''b.txt'', Fin 2), (''c.txt'', Fin 3)] =
     Inr [(Fin 1, Fin 2, Fin 1), (Fin 2, Fin 4, Fin 1), (Fin 3, Fin 6, Fin 1)]"
    by (simp add: split_ws_def is_space_def TAB_def NL_def py_int_def int_strip_def is_c_space_def strip_def parse_nat_def
        is_digit_def digit_val_def loadtxt_def pick_cols_def np_mean_def np_std_def np_sum_def
        np_sub_def np_square_def)
  have few: "calibrate
     [''a.txt'' \<mapsto> \<lparr>first_line = ''Push number'' @ [TAB] @ ''175'' @ [NL],
                          data_rows = [[Fin 0, Fin 1], [Fin 1, Fin 3]]\<rparr>,
      ''b.txt'' \<mapsto> \<lparr>first_line = ''Push number'' @ [TAB] @ ''175'' @ [NL],
                          data_rows = [[Fin 0, Fin 3], [Fin 1, Fin 5]]\<rparr>,
      ''c.txt'' \<mapsto> \<lparr>first_line = ''Push number'' @ [TAB] @ ''175'' @ [NL],
                          data_rows = [[Fin 0, Fin 5], [Fin 1, Fin 7]]\<rparr>]
     \<lparr>mass_entry = ''175'', rows = [(''a.txt'', Fin 1), (''b.txt'', Fin 2)]\<rparr> = Inl InsufficientDataError"
    using calibrate_point_count [of "\<lparr>mass_entry = ''175'', rows = [(''a.txt'', Fin 1), (''b.txt'', Fin 2)]\<rparr>"
      "[''a.txt'' \<mapsto> \<lparr>first_line = ''Push number'' @ [TAB] @ ''175'' @ [NL],
                          data_rows = [[Fin 0, Fin 1], [Fin 1, Fin 3]]\<rparr>,
      ''b.txt'' \<mapsto> \<lparr>first_line = ''Push number'' @ [TAB] @ ''175'' @ [NL],
                          data_rows = [[Fin 0, Fin 3], [Fin 1, Fin 5]]\<rparr>,
      ''c.txt'' \<mapsto> \<lparr>first_line = ''Push number'' @ [TAB] @ ''175'' @ [NL],
                          data_rows = [[Fin 0, Fin 5], [Fin 1, Fin 7]]\<rparr>]"] d
    by simp
  have three: "calibrate
     [''a.txt'' \<mapsto> \<lparr>first_line = ''Push number'' @ [TAB] @ ''175'' @ [NL],
                          data_rows = [[Fin 0, Fin 1], [Fin 1, Fin 3]]\<rparr>,
      ''b.txt'' \<mapsto> \<lparr>first_line = ''Push number'' @ [TAB] @ ''175'' @ [NL],
                          data_rows = [[Fin 0, Fin 3], [Fin 1, Fin 5]]\<rparr>,
      ''c.txt'' \<mapsto> \<lparr>first_line = ''Push number'' @ [TAB] @ ''175'' @ [NL],
                          data_rows = [[Fin 0, Fin 5], [Fin 1, Fin 7]]\<rparr>]
     \<lparr>mass_entry = ''175'',
       rows = [(''a.txt'', Fin 1), (''b.txt'', Fin 2), (''c.txt'', Fin 3)]\<rparr> = Inr (Fin 2, Fin 0, Fin 1)"
    using calibrate_point_count [of "\<lparr>mass_entry = ''175'',
       rows = [(''a.txt'', Fin 1), (''b.txt'', Fin 2), (''c.txt'', Fin 3)]\<rparr>"
      "[''a.txt'' \<mapsto> \<lparr>first_line = ''Push number'' @ [TAB] @ ''175'' @ [NL],
                          data_rows = [[Fin 0, Fin 1], [Fin 1, Fin 3]]\<rparr>,
      ''b.txt'' \<mapsto> \<lparr>first_line = ''Push number'' @ [TAB] @ ''175'' @ [NL],
                          data_rows = [[Fin 0, Fin 3], [Fin 1, Fin 5]]\<rparr>,
      ''c.txt'' \<mapsto> \<lparr>first_line = ''Push number'' @ [TAB] @ ''175'' @ [NL],
                          data_rows = [[Fin 0, Fin 5], [Fin 1, Fin 7]]\<rparr>]" 175 "[1, 2, 3]" 2 0 "[1, 1, 1]"] d i rp
    by simp
  have direct: "wls (map Fin [1, 2, 3]) (map Fin [5, 8, 11]) (map Fin [1, 2, 1])
      = Inr (Fin 3, Fin 2, Fin 1)"
    using calibrate_point_count [of "\<lparr>mass_entry = ''175'',
       rows = [(''a.txt'', Fin 1), (''b.txt'', Fin 2), (''c.txt'', Fin 3)]\<rparr>" _ _ _ _ _ _ "[1, 2, 3]" "[1, 2, 1]" 3 2] d
    by simp
  show ?thesis
    using d i rp few three direct by simp
qed

text \<open>
  C9 as stated fails when no mass is entered: the check of the mass entry comes first,
  and two rows end in the no-mass error, not in the insufficient-data error.
\<close>

theorem calibrate_no_mass_counterexample:
  "length (rows \<lparr>mass_entry = [], rows = [(''a.txt'', Fin 1), (''b.txt'', Fin 2)]\<rparr>) = 2 \<and>
   calibrate
     [''a.txt'' \<mapsto> \<lparr>first_line = ''Push number'' @ [TAB] @ ''175'' @ [NL],
                          data_rows = [[Fin 0, Fin 1], [Fin 1, Fin 3]]\<rparr>,
      ''b.txt'' \<mapsto> \<lparr>first_line = ''Push number'' @ [TAB] @ ''175'' @ [NL],
                          data_rows = [[Fin 0, Fin 3], [Fin 1, Fin 5]]\<rparr>,
      ''c.txt'' \<mapsto> \<lparr>first_line = ''Push number'' @ [TAB] @ ''175'' @ [NL],
                          data_rows = [[Fin 0, Fin 5], [Fin 1, Fin 7]]\<rparr>]
     \<lparr>mass_entry = [], rows = [(''a.txt'', Fin 1), (''b.txt'', Fin 2)]\<rparr> = Inl NoMassSelected \<and>
   calibrate
     [''a.txt'' \<mapsto> \<lparr>first_line = ''Push number'' @ [TAB] @ ''175'' @ [NL],
                          data_rows = [[Fin 0, Fin 1], [Fin 1, Fin 3]]\<rparr>,
      ''b.txt'' \<mapsto> \<lparr>first_line = ''Push number'' @ [TAB] @ ''175'' @ [NL],
                          data_rows = [[Fin 0, Fin 3], [Fin 1, Fin 5]]\<rparr>,
      ''c.txt'' \<mapsto> \<lparr>first_line = ''Push number'' @ [TAB] @ ''175'' @ [NL],
                          data_rows = [[Fin 0, Fin 5], [Fin 1, Fin 7]]\<rparr>]
     \<lparr>mass_entry = [], rows = [(''a.txt'', Fin 1), (''b.txt'', Fin 2)]\<rparr> \<noteq> Inl InsufficientDataError"
  by (simp add: calibrate_def)

section \<open>Column selection and the loaders\<close>

text \<open>
  Claim C2 fails in \<open>data_selector\<close>. The selector parses the header as the
  calibration front end does (\<open>split()[2:]\<close>), but where \<open>calibrate\<close> reads column
  \<open>index(mass) + 1\<close>, the selector keeps column \<open>index(mass)\<close>: for a mass at
  position \<open>k\<close> of the parsed header (counted from 0) the output file holds, under the
  heading of that mass, field \<open>k\<close> of every row, which is the column before the one
  headed by the mass (the push numbers again for the first mass). The whole-file loader
  maps the same mass to column \<open>k + 1\<close> (lemma \<open>masses_nth\<close>).
\<close>

theorem data_selector_extracts_preceding_column:
  assumes parse: "map_err py_int (drop 2 (split_ws (strip (first_line f)))) = Inr av"
    and idx: "py_index av mass = Inr k"
    and wide: "list_all (\<lambda>row. k < length row) (data_rows f)"
    and ne: "data_rows f \<noteq> []" and c: "0 < chunksize"
  shows "\<exists>ps. data_selector chunksize [mass] f =
           Inr (\<lparr>first_line = ''Push number'' @ [TAB] @ py_str mass @ [NL],
                 data_rows = map (\<lambda>row. [row ! 0, row ! k]) (data_rows f)\<rparr>, ps)"
proof -
  have 1: "map_err (py_index av) [mass] = Inr [k]" using idx by simp
  have 2: "map_err (pick_cols IndexError [0, k]) (data_rows f)
             = Inr (map (\<lambda>row. [row ! 0, row ! k]) (data_rows f))"
  proof (rule map_err_Inr)
    fix row assume "row \<in> set (data_rows f)"
    then have "k < length row" using wide by (simp add: list_all_iff)
    then show "pick_cols IndexError [0, k] row = Inr [row ! 0, row ! k]"
      by (auto simp add: pick_cols_def)
  qed
  show ?thesis
    using data_selector_selects [OF parse 1 2 ne c] by simp
qed

text \<open>
  A file with the masses 142 and 175: asked for 175, the selector writes the column of
  142 under the heading 175, while the whole-file loader and the loop of \<open>calibrate\<close>
  read the column headed 175.
\<close>

theorem data_selector_extracts_preceding_column_witness:
  "map_err py_int (drop 2 (split_ws (strip (''Push number'' @ [TAB] @ ''142'' @ [TAB] @ ''175'' @ [NL]))))
     = Inr [142, 175] \<and>
   py_index [142, 175 :: int] 175 = Inr 1 \<and>
   list_all (\<lambda>row. 1 < length row) [[Fin 0, Fin 10, Fin 20], [Fin 1, Fin 11, Fin 22]] \<and>
   (0::nat) < CHUNKSIZE \<and>
   data_selector CHUNKSIZE [175]
     \<lparr>first_line = ''Push number'' @ [TAB] @ ''142'' @ [TAB] @ ''175'' @ [NL],
      data_rows = [[Fin 0, Fin 10, Fin 20], [Fin 1, Fin 11, Fin 22]]\<rparr> =
     Inr (\<lparr>first_line = ''Push number'' @ [TAB] @ ''175'' @ [NL],
           data_rows = [[Fin 0, Fin 10], [Fin 1, Fin 11]]\<rparr>, [100 / 3]) \<and>
   load_array [175]
     \<lparr>first_line = ''Push number'' @ [TAB] @ ''142'' @ [TAB] @ ''175'' @ [NL],
      data_rows = [[Fin 0, Fin 10, Fin 20], [Fin 1, Fin 11, Fin 22]]\<rparr> =
     Inr [[Fin 20], [Fin 22]] \<and>
   read_points
     [''standard.txt'' \<mapsto>
        \<lparr>first_line = ''Push number'' @ [TAB] @ ''142'' @ [TAB] @ ''175'' @ [NL],
         data_rows = [[Fin 0, Fin 10, Fin 20], [Fin 1, Fin 11, Fin 22]]\<rparr>]
     175 [(''standard.txt'', Fin 5)] = Inr [(Fin 5, Fin 21, Fin 1)]"
proof -
  have parse: "map_err py_int (drop 2 (split_ws (strip (first_line
      \<lparr>first_line = ''Push number'' @ [TAB] @ ''142'' @ [TAB] @ ''175'' @ [NL],
       data_rows = [[Fin 0, Fin 10, Fin 20], [Fin 1, Fin 11, Fin 22]]\<rparr>)))) = Inr [142, 175]"
    by (simp add: split_ws_def strip_def is_space_def TAB_def NL_def py_int_def int_strip_def is_c_space_def parse_nat_def
        is_digit_def digit_val_def)
  have idx: "py_index [142, 175 :: int] 175 = Inr 1" by simp
  have wide: "list_all (\<lambda>row. 1 < length row) (data_rows
      \<lparr>first_line = ''Push number'' @ [TAB] @ ''142'' @ [TAB] @ ''175'' @ [NL],
       data_rows = [[Fin 0, Fin 10, Fin 20], [Fin 1, Fin 11, Fin 22]]\<rparr>)" by simp
  have ne: "data_rows
      \<lparr>first_line = ''Push number'' @ [TAB] @ ''142'' @ [TAB] @ ''175'' @ [NL],
       data_rows = [[Fin 0, Fin 10, Fin 20], [Fin 1, Fin 11, Fin 22]]\<rparr> \<noteq> []" by simp
  have c: "0 < CHUNKSIZE" by (simp add: CHUNKSIZE_def)
  have sel: "data_selector CHUNKSIZE [175]
     \<lparr>first_line = ''Push number'' @ [TAB] @ ''142'' @ [TAB] @ ''175'' @ [NL],
      data_rows = [[Fin 0, Fin 10, Fin 20], [Fin 1, Fin 11, Fin 22]]\<rparr> =
     Inr (\<lparr>first_line = ''Push number'' @ [TAB] @ ''175'' @ [NL],
           data_rows = [[Fin 0, Fin 10], [Fin 1, Fin 11]]\<rparr>, [100 / 3])"
    using data_selector_extracts_preceding_column [OF parse idx wide ne c]
    by (simp add: data_selector_def split_ws_def strip_def is_space_def TAB_def NL_def py_int_def int_strip_def is_c_space_def
      parse_nat_def is_digit_def digit_val_def read_csv_def read_chunks.simps pick_cols_def
      line_count_def progress_def py_str_def nat_digits.simps digit_char_def CHUNKSIZE_def)
  have load: "load_array [175]
     \<lparr>first_line = ''Push number'' @ [TAB] @ ''142'' @ [TAB] @ ''175'' @ [NL],
      data_rows = [[Fin 0, Fin 10, Fin 20], [Fin 1, Fin 11, Fin 22]]\<rparr> =
     Inr [[Fin 20], [Fin 22]]"
    by (simp add: load_array_def available_def masses_def dict_of_def loadtxt_def pick_cols_def
        TAB_def NL_def py_int_def int_strip_def is_c_space_def strip_def is_space_def parse_nat_def is_digit_def digit_val_def
        upt_rec)
  have cal: "read_points
     [''standard.txt'' \<mapsto>
        \<lparr>first_line = ''Push number'' @ [TAB] @ ''142'' @ [TAB] @ ''175'' @ [NL],
         data_rows = [[Fin 0, Fin 10, Fin 20], [Fin 1, Fin 11, Fin 22]]\<rparr>]
     175 [(''standard.txt'', Fin 5)] = Inr [(Fin 5, Fin 21, Fin 1)]"
    by (simp add: split_ws_def is_space_def TAB_def NL_def py_int_def int_strip_def is_c_space_def strip_def parse_nat_def
        is_digit_def digit_val_def loadtxt_def pick_cols_def np_mean_def np_std_def np_sum_def
        np_sub_def np_square_def)
  show ?thesis
    using parse idx wide c sel load cal by simp
qed

text \<open>
  Claim C3 fails for the same reason. For the file above, whatever the size of the
  blocks, the array loaded from the file that \<open>data_selector\<close> has written holds the
  values of the column of 142, and the array loaded in one pass from the input file
  holds those of the column of 175.
\<close>

theorem chunked_load_differs_from_whole_file_load:
  assumes "0 < chunksize"
  shows "chunked_load chunksize [175]
           \<lparr>first_line = ''Push number'' @ [TAB] @ ''142'' @ [TAB] @ ''175'' @ [NL],
            data_rows = [[Fin 0, Fin 10, Fin 20], [Fin 1, Fin 11, Fin 22]]\<rparr>
           = Inr [[Fin 10], [Fin 11]] \<and>
         load_array [175]
           \<lparr>first_line = ''Push number'' @ [TAB] @ ''142'' @ [TAB] @ ''175'' @ [NL],
            data_rows = [[Fin 0, Fin 10, Fin 20], [Fin 1, Fin 11, Fin 22]]\<rparr>
           = Inr [[Fin 20], [Fin 22]]"
proof
  have parse: "map_err py_int (drop 2 (split_ws (strip (first_line
      \<lparr>first_line = ''Push number'' @ [TAB] @ ''142'' @ [TAB] @ ''175'' @ [NL],
       data_rows = [[Fin 0, Fin 10, Fin 20], [Fin 1, Fin 11, Fin 22]]\<rparr>)))) = Inr [142, 175]"
    by (simp add: split_ws_def strip_def is_space_def TAB_def NL_def py_int_def int_strip_def is_c_space_def parse_nat_def
        is_digit_def digit_val_def)
  have idx: "map_err (py_index [142, 175 :: int]) [175] = Inr [1]" by simp
  have pick: "map_err (pick_cols IndexError [0, 1]) (data_rows
      \<lparr>first_line = ''Push number'' @ [TAB] @ ''142'' @ [TAB] @ ''175'' @ [NL],
       data_rows = [[Fin 0, Fin 10, Fin 20], [Fin 1, Fin 11, Fin 22]]\<rparr>)
      = Inr [[Fin 0, Fin 10], [Fin 1, Fin 11]]"
    by (simp add: pick_cols_def)
  have ne: "data_rows
      \<lparr>first_line = ''Push number'' @ [TAB] @ ''142'' @ [TAB] @ ''175'' @ [NL],
       data_rows = [[Fin 0, Fin 10, Fin 20], [Fin 1, Fin 11, Fin 22]]\<rparr> \<noteq> []" by simp
  obtain ps where sel: "data_selector chunksize [175]
     \<lparr>first_line = ''Push number'' @ [TAB] @ ''142'' @ [TAB] @ ''175'' @ [NL],
      data_rows = [[Fin 0, Fin 10, Fin 20], [Fin 1, Fin 11, Fin 22]]\<rparr> =
     Inr (\<lparr>first_line = ''Push number'' @ [TAB] @ join [TAB] (map py_str [175]) @ [NL],
           data_rows = [[Fin 0, Fin 10], [Fin 1, Fin 11]]\<rparr>, ps)"
    using data_selector_selects [OF parse idx pick ne assms] by blast
  have reread: "load_array [175]
       \<lparr>first_line = ''Push number'' @ [TAB] @ join [TAB] (map py_str [175]) @ [NL],
        data_rows = [[Fin 0, Fin 10], [Fin 1, Fin 11]]\<rparr> = Inr [[Fin 10], [Fin 11]]"
    by (simp add: load_array_def available_def masses_def dict_of_def loadtxt_def pick_cols_def
        TAB_def NL_def py_int_def int_strip_def is_c_space_def strip_def is_space_def parse_nat_def is_digit_def digit_val_def
        py_str_def nat_digits.simps digit_char_def upt_rec)
  show "chunked_load chunksize [175]
           \<lparr>first_line = ''Push number'' @ [TAB] @ ''142'' @ [TAB] @ ''175'' @ [NL],
            data_rows = [[Fin 0, Fin 10, Fin 20], [Fin 1, Fin 11, Fin 22]]\<rparr>
           = Inr [[Fin 10], [Fin 11]]"
    unfolding chunked_load_def sel using reread by simp
  show "load_array [175]
           \<lparr>first_line = ''Push number'' @ [TAB] @ ''142'' @ [TAB] @ ''175'' @ [NL],
            data_rows = [[Fin 0, Fin 10, Fin 20], [Fin 1, Fin 11, Fin 22]]\<rparr>
           = Inr [[Fin 20], [Fin 22]]"
    by (simp add: load_array_def available_def masses_def dict_of_def loadtxt_def pick_cols_def
        TAB_def NL_def py_int_def int_strip_def is_c_space_def strip_def is_space_def parse_nat_def is_digit_def digit_val_def
        upt_rec)
qed

theorem chunked_load_differs_from_whole_file_load_witness:
  "(0::nat) < 1 \<and> 0 < CHUNKSIZE \<and>
   chunked_load 1 [175]
     \<lparr>first_line = ''Push number'' @ [TAB] @ ''142'' @ [TAB] @ ''175'' @ [NL],
      data_rows = [[Fin 0, Fin 10, Fin 20], [Fin 1, Fin 11, Fin 22]]\<rparr>
     = Inr [[Fin 10], [Fin 11]] \<and>
   chunked_load CHUNKSIZE [175]
     \<lparr>first_line = ''Push number'' @ [TAB] @ ''142'' @ [TAB] @ ''175'' @ [NL],
      data_rows = [[Fin 0, Fin 10, Fin 20], [Fin 1, Fin 11, Fin 22]]\<rparr>
     = Inr [[Fin 10], [Fin 11]] \<and>
   load_array [175]
     \<lparr>first_line = ''Push number'' @ [TAB] @ ''142'' @ [TAB] @ ''175'' @ [NL],
      data_rows = [[Fin 0, Fin 10, Fin 20], [Fin 1, Fin 11, Fin 22]]\<rparr>
     = Inr [[Fin 20], [Fin 22]]"
proof -
  have c: "0 < CHUNKSIZE" by (simp add: CHUNKSIZE_def)
  show ?thesis
    using chunked_load_differs_from_whole_file_load [of 1]
      chunked_load_differs_from_whole_file_load [OF c] c by simp
qed

text \<open>
  Claim C8: the yielded values of a run that reaches the end are strictly increasing and
  lie in the interval from 0 to 100, but the last one is below 100: it is computed from
  the index of the last data row, counted from 0, over the number of lines of the file,
  header included.
\<close>

theorem data_selector_final_progress_below_100:
  assumes "data_selector chunksize sel f = Inr (g, ps)"
  shows "ps \<noteq> [] \<and> sorted_wrt (<) ps \<and> list_all (\<lambda>p. 0 \<le> p \<and> p < 100) ps \<and>
         last ps = progress (length (data_rows f) - 1) (Suc (length (data_rows f))) \<and>
         last ps < 100"
proof -
  define n where "n = length (data_rows f)"
  define chunks where "chunks = read_chunks chunksize 0 (data_rows f)"
  obtain cols where c: "0 < chunksize" and ne: "data_rows f \<noteq> []"
    and w: "write_chunks cols (Suc n) chunks = Inr (data_rows g, ps)"
    using data_selector_chunks [OF assms] unfolding n_def chunks_def by blast
  have ps: "ps = map (\<lambda>(s, ch). progress (s + length ch - 1) (Suc n)) chunks"
    using write_chunks_progress [OF w] .
  have cne: "chunks \<noteq> []"
    unfolding chunks_def using c ne by (rule read_chunks_nonempty)
  have 1: "ps \<noteq> []" using ps cne by simp
  have "sorted_wrt (<) (map (\<lambda>p. progress ((\<lambda>(s, ch). s + length ch - 1) p) (Suc n)) chunks)"
    using read_chunks_sorted [OF c, of 0 "data_rows f", folded chunks_def]
    by (intro progress_sorted) simp_all
  then have 2: "sorted_wrt (<) ps"
    unfolding ps by (simp add: case_prod_unfold)
  have b: "\<And>s ch. (s, ch) \<in> set chunks \<Longrightarrow> s + length ch - 1 < n"
  proof -
    fix s ch assume "(s, ch) \<in> set chunks"
    then have "ch \<noteq> [] \<and> 0 \<le> s \<and> s + length ch \<le> 0 + n"
      unfolding chunks_def n_def using c by (rule_tac read_chunks_bounds)
    then have "0 < length ch" "s + length ch \<le> n" by simp_all
    then show "s + length ch - 1 < n" by linarith
  qed
  have r: "\<And>i. i < n \<Longrightarrow> 0 \<le> progress i (Suc n) \<and> progress i (Suc n) < 100"
    by (simp add: progress_eq field_simps)
  have 3: "list_all (\<lambda>p. 0 \<le> p \<and> p < 100) ps"
    unfolding ps list_all_iff using b r by auto
  have "(case last chunks of (s, ch) \<Rightarrow> s + length ch) = 0 + n"
    unfolding chunks_def n_def using c ne by (rule read_chunks_last)
  then have "(case last chunks of (s, ch) \<Rightarrow> s + length ch - 1) = n - 1"
    by (simp add: case_prod_unfold)
  then have 4: "last ps = progress (n - 1) (Suc n)"
    unfolding ps using cne by (simp add: last_map case_prod_unfold)
  have "0 < n" using ne by (simp add: n_def)
  then have 5: "last ps < 100" using r [of "n - 1"] 4 by simp
  show ?thesis using 1 2 3 4 5 by (simp add: n_def)
qed

theorem data_selector_final_progress_below_100_witness:
  "data_selector 2 [175]
     \<lparr>first_line = ''Push number'' @ [TAB] @ ''142'' @ [TAB] @ ''175'' @ [NL],
      data_rows = [[Fin 0, Fin 10, Fin 20], [Fin 1, Fin 11, Fin 21], [Fin 2, Fin 12, Fin 22]]\<rparr> =
     Inr (\<lparr>first_line = ''Push number'' @ [TAB] @ ''175'' @ [NL],
           data_rows = [[Fin 0, Fin 10], [Fin 1, Fin 11], [Fin 2, Fin 12]]\<rparr>, [25, 50]) \<and>
   sorted_wrt (<) [25, 50 :: real] \<and> list_all (\<lambda>p. 0 \<le> p \<and> p < 100) [25, 50 :: real] \<and>
   last [25, 50 :: real] = progress 2 4 \<and> last [25, 50 :: real] < 100"
proof -
  have sel: "data_selector 2 [175]
     \<lparr>first_line = ''Push number'' @ [TAB] @ ''142'' @ [TAB] @ ''175'' @ [NL],
      data_rows = [[Fin 0, Fin 10, Fin 20], [Fin 1, Fin 11, Fin 21], [Fin 2, Fin 12, Fin 22]]\<rparr> =
     Inr (\<lparr>first_line = ''Push number'' @ [TAB] @ ''175'' @ [NL],
           data_rows = [[Fin 0, Fin 10], [Fin 1, Fin 11], [Fin 2, Fin 12]]\<rparr>, [25, 50])"
    by (simp add: data_selector_def split_ws_def strip_def is_space_def TAB_def NL_def py_int_def int_strip_def is_c_space_def
      parse_nat_def is_digit_def digit_val_def read_csv_def read_chunks.simps pick_cols_def
      line_count_def progress_def py_str_def nat_digits.simps digit_char_def)
  have p: "progress 2 4 = 50" by (simp add: progress_def)
  show ?thesis
    using data_selector_final_progress_below_100 [OF sel] sel by (simp add: p)
qed

section \<open>Event integration\<close>

text \<open>
  Claim C7. When the mass of interest is one of the loaded masses, the array has its
  column, and the bounds of every event are nonnegative indices, \<open>sum_I\<close> returns one
  scalar for every event, in the order of the events: the sum of the channel's values at
  the indices from the start up to, not including, the end, cut at the length of the
  series. For an end within the series that range is the half-open range from start to
  end itself, and an event whose start is not below its end contributes exactly zero.
\<close>

theorem sum_I_is_window_sum:
  assumes col: "mass_dict load_masses mass_of_interest = Some c"
    and wide: "list_all (\<lambda>row. c < length row) ar"
    and nonneg: "list_all (\<lambda>side. 0 \<le> fst side \<and> 0 \<le> snd side) events"
  shows "sum_I load_masses mass_of_interest ar events =
           Inr (map (\<lambda>side. np_sum (map (\<lambda>k. ar ! k ! c)
                                 [nat (fst side) ..< min (nat (snd side)) (length ar)])) events) \<and>
         list_all (\<lambda>side. snd side \<le> int (length ar) \<longrightarrow>
                      [nat (fst side) ..< min (nat (snd side)) (length ar)] =
                      [nat (fst side) ..< nat (snd side)]) events \<and>
         list_all (\<lambda>side. snd side \<le> fst side \<longrightarrow>
                      np_sum (map (\<lambda>k. ar ! k ! c)
                                 [nat (fst side) ..< min (nat (snd side)) (length ar)]) = Fin 0) events"
proof (intro conjI)
  have "\<And>side. side \<in> set events \<Longrightarrow>
          map (\<lambda>row. row ! c) (py_slice ar (fst side) (snd side)) =
          map (\<lambda>k. ar ! k ! c) [nat (fst side) ..< min (nat (snd side)) (length ar)]"
  proof -
    fix side assume "side \<in> set events"
    then have "0 \<le> fst side" "0 \<le> snd side" using nonneg by (auto simp: list_all_iff)
    then show "map (\<lambda>row. row ! c) (py_slice ar (fst side) (snd side)) =
          map (\<lambda>k. ar ! k ! c) [nat (fst side) ..< min (nat (snd side)) (length ar)]"
      by (simp add: py_slice_nonneg)
  qed
  then show "sum_I load_masses mass_of_interest ar events =
           Inr (map (\<lambda>side. np_sum (map (\<lambda>k. ar ! k ! c)
                                 [nat (fst side) ..< min (nat (snd side)) (length ar)])) events)"
    unfolding sum_I_def using col wide by (intro map_err_Inr) simp
  show "list_all (\<lambda>side. snd side \<le> int (length ar) \<longrightarrow>
                      [nat (fst side) ..< min (nat (snd side)) (length ar)] =
                      [nat (fst side) ..< nat (snd side)]) events"
    by (auto simp: list_all_iff min_def)
  show "list_all (\<lambda>side. snd side \<le> fst side \<longrightarrow>
                      np_sum (map (\<lambda>k. ar ! k ! c)
                                 [nat (fst side) ..< min (nat (snd side)) (length ar)]) = Fin 0) events"
    by (auto simp: list_all_iff np_sum_def)
qed

theorem sum_I_is_window_sum_witness:
  "mass_dict LOAD_MASSES MASS_OF_INTEREST = Some 1 \<and>
   list_all (\<lambda>row. 1 < length row) (replicate 25 [Fin 0, Fin 2, Fin 0, Fin 0]) \<and>
   list_all (\<lambda>side. 0 \<le> fst side \<and> 0 \<le> snd side) ([(10, 20), (5, 5), (7, 3), (24, 30)] :: (int \<times> int) list) \<and>
   sum_I LOAD_MASSES MASS_OF_INTEREST (replicate 25 [Fin 0, Fin 2, Fin 0, Fin 0])
     [(10, 20), (5, 5), (7, 3), (24, 30)] = Inr [Fin 20, Fin 0, Fin 0, Fin 2]"
proof -
  have md: "mass_dict LOAD_MASSES MASS_OF_INTEREST = Some 1"
    by (simp add: mass_dict_def dict_of_def LOAD_MASSES_def MASS_OF_INTEREST_def upt_rec)
  have w: "list_all (\<lambda>row. 1 < length row) (replicate 25 [Fin 0, Fin 2, Fin 0, Fin 0])"
    by (simp add: list_all_iff)
  have ev: "list_all (\<lambda>side. 0 \<le> fst side \<and> 0 \<le> snd side) ([(10, 20), (5, 5), (7, 3), (24, 30)] :: (int \<times> int) list)"
    by simp
  show ?thesis
    using sum_I_is_window_sum [OF md w ev] md w
    by (simp add: np_sum_def upt_rec)
qed

section \<open>Mass conversion\<close>

text \<open>
  Claim C4. With a slope \<open>X1\<close> that is not zero and the positive constants \<open>DT\<close>,
  \<open>FLOW\<close> and \<open>TE\<close> of the script, every intensity \<open>I\<close> is converted to
  \<open>(I - X0) / X1 * DT * FLOW / TE\<close>; so the intensity \<open>X0 + X1 * c\<close> on the
  calibration line is converted to \<open>c * DT * FLOW / TE\<close>.
\<close>

theorem conversion_inverts_calibration_line:
  assumes "X1 \<noteq> 0"
  shows "0 < DT \<and> 0 < FLOW \<and> 0 < TE \<and>
    event_mass_interest (Fin X0) (Fin X1) (map Fin s) =
      map (\<lambda>I. Fin ((I - X0) / X1 * DT * FLOW / TE)) s \<and>
    event_mass_interest (Fin X0) (Fin X1) [Fin (X0 + X1 * c)] = [Fin (c * DT * FLOW / TE)]"
  using assms by (simp add: event_mass_interest_def np_sub_def DT_def FLOW_def TE_def)

theorem conversion_inverts_calibration_line_witness:
  "(2::real) \<noteq> 0 \<and>
   event_mass_interest (Fin 1) (Fin 2) (map Fin [1, 5]) = [Fin 0, Fin (13 / 100000)] \<and>
   event_mass_interest (Fin 1) (Fin 2) [Fin (1 + 2 * 3)] = [Fin (3 * DT * FLOW / TE)]"
  using conversion_inverts_calibration_line [of 2 1 "[1, 5]" 3]
  by (simp add: DT_def FLOW_def TE_def)

text \<open>
  Claim C6, as amended. The conversion raises nothing for a slope of zero: for every
  intercept and every array of intensities it returns one value for each intensity, and
  each of them is \<open>inf\<close>, \<open>-inf\<close> or \<open>nan\<close>; so whenever the integration returns,
  integration followed by conversion returns that array of values that are not finite,
  and no error.
\<close>

theorem zero_slope_converts_to_nonfinite:
  "length (event_mass_interest X0 (Fin 0) s) = length s \<and>
   list_all (\<lambda>v. \<not> is_finite v) (event_mass_interest X0 (Fin 0) s) \<and>
   (sum_I load_masses mass_of_interest ar events = Inr s \<longrightarrow>
      integrate_and_convert load_masses mass_of_interest ar events X0 (Fin 0)
        = Inr (event_mass_interest X0 (Fin 0) s))"
proof (intro conjI impI)
  show "length (event_mass_interest X0 (Fin 0) s) = length s"
    by (simp add: event_mass_interest_def)
  have "\<not> is_finite (np_div (np_mul (np_mul (np_div (np_sub I X0) (Fin 0)) (Fin DT)) (Fin FLOW))
                         (Fin TE))" for I
  proof -
    have 1: "\<not> is_finite (np_div (np_sub I X0) (Fin 0))" by (rule np_div_zero_nonfinite)
    have 2: "\<not> is_finite (np_mul (np_div (np_sub I X0) (Fin 0)) (Fin DT))"
      using 1 by (rule np_mul_pos_nonfinite) (simp add: DT_def)
    have 3: "\<not> is_finite (np_mul (np_mul (np_div (np_sub I X0) (Fin 0)) (Fin DT)) (Fin FLOW))"
      using 2 by (rule np_mul_pos_nonfinite) (simp add: FLOW_def)
    show ?thesis using 3 by (rule np_div_nonfinite)
  qed
  then show "list_all (\<lambda>v. \<not> is_finite v) (event_mass_interest X0 (Fin 0) s)"
    by (simp add: event_mass_interest_def list_all_iff)
next
  assume "sum_I load_masses mass_of_interest ar events = Inr s"
  then show "integrate_and_convert load_masses mass_of_interest ar events X0 (Fin 0)
        = Inr (event_mass_interest X0 (Fin 0) s)"
    by (simp add: integrate_and_convert_def)
qed

theorem zero_slope_converts_to_nonfinite_witness:
  "sum_I LOAD_MASSES MASS_OF_INTEREST
     [[Fin 0, Fin 1, Fin 0, Fin 0], [Fin 1, Fin 2, Fin 0, Fin 0]] [(0, 1), (0, 2), (1, 1)]
     = Inr [Fin 1, Fin 3, Fin 0] \<and>
   integrate_and_convert LOAD_MASSES MASS_OF_INTEREST
     [[Fin 0, Fin 1, Fin 0, Fin 0], [Fin 1, Fin 2, Fin 0, Fin 0]] [(0, 1), (0, 2), (1, 1)]
     (Fin 3) (Fin 0) = Inr (event_mass_interest (Fin 3) (Fin 0) [Fin 1, Fin 3, Fin 0]) \<and>
   length (event_mass_interest (Fin 3) (Fin 0) [Fin 1, Fin 3, Fin 0]) = 3 \<and>
   list_all (\<lambda>v. \<not> is_finite v) (event_mass_interest (Fin 3) (Fin 0) [Fin 1, Fin 3, Fin 0])"
proof -
  have s: "sum_I LOAD_MASSES MASS_OF_INTEREST
     [[Fin 0, Fin 1, Fin 0, Fin 0], [Fin 1, Fin 2, Fin 0, Fin 0]] [(0, 1), (0, 2), (1, 1)]
     = Inr [Fin 1, Fin 3, Fin 0]"
    by (simp add: sum_I_def mass_dict_def dict_of_def LOAD_MASSES_def MASS_OF_INTEREST_def
        py_slice_def np_sum_def upt_rec)
  show ?thesis
    using zero_slope_converts_to_nonfinite [of "Fin 3" "[Fin 1, Fin 3, Fin 0]" LOAD_MASSES
        MASS_OF_INTEREST "[[Fin 0, Fin 1, Fin 0, Fin 0], [Fin 1, Fin 2, Fin 0, Fin 0]]"
        "[(0, 1), (0, 2), (1, 1)]"] s
    by simp
qed

text \<open>
  C6 as stated fails: with slope and intercept \<open>0\<close> the integral \<open>1\<close> of one event is
  converted to \<open>inf\<close>, and with the slope \<open>1e-12\<close> to a finite mass.
\<close>

theorem zero_slope_returns_inf_counterexample:
  "integrate_and_convert LOAD_MASSES MASS_OF_INTEREST [[Fin 0, Fin 1, Fin 0, Fin 0]] [(0, 1)] (Fin 0) (Fin 0)
     = Inr [PInf] \<and>
   integrate_and_convert LOAD_MASSES MASS_OF_INTEREST [[Fin 0, Fin 1, Fin 0, Fin 0]] [(0, 1)] (Fin 0) (Fin 0)
     \<noteq> Inl CalibrationDegenerateError \<and>
   event_mass_interest (Fin 0) (Fin (1 / 10 ^ 12)) [Fin 1] = [Fin 65000000]"
  by (simp add: integrate_and_convert_def sum_I_def mass_dict_def dict_of_def LOAD_MASSES_def
      MASS_OF_INTEREST_def py_slice_def np_sum_def event_mass_interest_def np_sub_def
      DT_def FLOW_def TE_def upt_rec)

end
